theory Spec2Isabelle
  imports Complex_Main
begin

section \<open>Numbers\<close>

text \<open>
  The program computes with IEEE double-precision floats. The model computes with
  real numbers: \<open>log\<close>, \<open>sqrt\<close> and \<open>exp\<close> of numpy are the real functions
  \<^term>\<open>ln\<close>, \<^term>\<open>sqrt\<close> and \<^term>\<open>exp\<close>, and rounding is left out. Where the
  float computation leaves the real numbers (a division by zero, the logarithm of a
  number that is not positive, the square root of a negative number: numpy goes on
  with \<open>inf\<close>, \<open>-inf\<close> or \<open>nan\<close> and a RuntimeWarning, and Python's own float
  division raises ZeroDivisionError) the model has the value \<open>None\<close>, and says nothing
  about the floats the program ends with.
\<close>

subsection \<open>The standard normal distribution (scipy.stats.norm)\<close>

text \<open>
  \<open>norm.pdf\<close> is the density \<open>exp (- x\<^sup>2 / 2) / sqrt (2 pi)\<close>. \<open>norm.cdf\<close> is its
  distribution function: \<open>1/2\<close> plus the integral of the density from \<open>0\<close> to
  \<open>x\<close>. The integral of \<open>exp (- t\<^sup>2 / 2)\<close> from \<open>0\<close> to \<open>x\<close> is written as its
  power series, \<open>\<Sum>k. (-1/2)^k x^(2k+1) / (k! (2k+1))\<close>.
\<close>

definition norm_pdf :: "real \<Rightarrow> real" where
  "norm_pdf x = exp (- (x\<^sup>2) / 2) / sqrt (2 * pi)"

definition cdf_coeff :: "nat \<Rightarrow> real" where
  "cdf_coeff n =
     (if even n then 0
      else (- 1 / 2) ^ ((n - 1) div 2) / (fact ((n - 1) div 2) * real n))"

definition gauss_int :: "real \<Rightarrow> real" where
  "gauss_int x = (\<Sum>n. cdf_coeff n * x ^ n)"

definition norm_cdf :: "real \<Rightarrow> real" where
  "norm_cdf x = 1 / 2 + gauss_int x / sqrt (2 * pi)"

subsection \<open>Integrals of the powers of the cosine\<close>

text \<open>
  \<open>cos_int k t\<close> is the integral of \<open>cos ^ k\<close> from \<open>0\<close> to \<open>t\<close>, by the reduction
  formula, and \<open>wallis k\<close> is its value at \<open>pi / 2\<close>. They bound the integral of
  \<open>exp (- t\<^sup>2 / 2)\<close>, and with it \<open>norm.cdf\<close>, from above.
\<close>

fun cos_int :: "nat \<Rightarrow> real \<Rightarrow> real" where
  "cos_int 0 t = t"
| "cos_int (Suc 0) t = sin t"
| "cos_int (Suc (Suc k)) t =
     (cos t ^ Suc k * sin t + real (Suc k) * cos_int k t) / real (Suc (Suc k))"

definition wallis :: "nat \<Rightarrow> real" where
  "wallis k = cos_int k (pi / 2)"

section \<open>The pricing engine: class BlackScholes\<close>

record BlackScholes =
  time_to_maturity :: real
  strike :: real
  current_price :: real
  volatility :: real
  interest_rate :: real

text \<open>The attributes that \<open>calculate_prices\<close> sets on the object.\<close>

record computed =
  call_price :: real
  put_price :: real
  call_delta :: real
  put_delta :: real
  call_gamma :: real
  put_gamma :: real

definition d1 :: "BlackScholes \<Rightarrow> real" where
  "d1 b = (ln (current_price b / strike b)
            + (interest_rate b + 0.5 * (volatility b)\<^sup>2) * time_to_maturity b)
          / (volatility b * sqrt (time_to_maturity b))"

definition d2 :: "BlackScholes \<Rightarrow> real" where
  "d2 b = d1 b - volatility b * sqrt (time_to_maturity b)"

text \<open>The local variables \<open>call_price\<close> and \<open>put_price\<close> of \<open>calculate_prices\<close>.\<close>

definition call_value :: "BlackScholes \<Rightarrow> real" where
  "call_value b = current_price b * norm_cdf (d1 b)
     - strike b * exp (- (interest_rate b * time_to_maturity b)) * norm_cdf (d2 b)"

definition put_value :: "BlackScholes \<Rightarrow> real" where
  "put_value b = strike b * exp (- (interest_rate b * time_to_maturity b)) * norm_cdf (- d2 b)
     - current_price b * norm_cdf (- d1 b)"

text \<open>
  The inputs on which every step of \<open>calculate_prices\<close> is real arithmetic: the
  divisors \<open>strike\<close> and \<open>volatility * sqrt time_to_maturity\<close> are not zero, and the
  arguments of \<open>log\<close> and \<open>sqrt\<close> are positive. The code itself checks nothing.
\<close>

definition real_arith :: "BlackScholes \<Rightarrow> bool" where
  "real_arith b \<longleftrightarrow>
     strike b \<noteq> 0 \<and> 0 < current_price b / strike b
     \<and> 0 < time_to_maturity b \<and> volatility b \<noteq> 0"

definition calculate_prices :: "BlackScholes \<Rightarrow> computed option" where
  "calculate_prices b =
     (if real_arith b then
        Some \<lparr>
          call_price = call_value b,
          put_price = put_value b,
          call_delta = norm_cdf (d1 b),
          put_delta = 1 - norm_cdf (d1 b),
          call_gamma = norm_pdf (d1 b) / (strike b * volatility b * sqrt (time_to_maturity b)),
          put_gamma = norm_pdf (d1 b) / (strike b * volatility b * sqrt (time_to_maturity b))
        \<rparr>
      else None)"

text \<open>The valid inputs of the specification.\<close>

definition valid :: "BlackScholes \<Rightarrow> bool" where
  "valid b \<longleftrightarrow>
     0 < current_price b \<and> 0 < strike b \<and> 0 < time_to_maturity b \<and> 0 < volatility b"

section \<open>The grid evaluator: plot_heatmap and plot_price_diff_colormap\<close>

datatype error = IndexError

text \<open>
  A cell of \<open>price_diffs\<close> is a float: a real number, or \<open>None\<close> where the price
  is not one. The matrix is a list of rows.
\<close>

type_synonym cell = "real option"
type_synonym matrix = "cell list list"

definition zeros :: "nat \<Rightarrow> nat \<Rightarrow> matrix" where
  "zeros m n = replicate m (replicate n (Some 0))"

text \<open>\<open>price_diffs[i, j] = v\<close>: numpy raises IndexError outside the array.\<close>

definition set_cell :: "matrix \<Rightarrow> nat \<Rightarrow> nat \<Rightarrow> cell \<Rightarrow> error + matrix" where
  "set_cell M i j v =
     (if i < length M \<and> j < length (M ! i) then Inr (M[i := (M ! i)[j := v]])
      else Inl IndexError)"

text \<open>\<open>purchase_price_range[i]\<close> for an index \<open>i \<ge> 0\<close>.\<close>

definition get :: "real list \<Rightarrow> nat \<Rightarrow> error + real" where
  "get xs i = (if i < length xs then Inr (xs ! i) else Inl IndexError)"

text \<open>
  \<open>bs_temp.call_price if option_type == "call" else bs_temp.put_price\<close>, read after
  \<open>bs_temp.calculate_prices()\<close>.
\<close>

definition predicted_price :: "string \<Rightarrow> BlackScholes \<Rightarrow> cell" where
  "predicted_price option_type bs_temp =
     map_option (if option_type = ''call'' then call_price else put_price)
       (calculate_prices bs_temp)"

text \<open>
  Both functions run the same two nested loops over \<open>enumerate(vol_range)\<close> and
  \<open>enumerate(spot_range)\<close>; they differ in the value stored in a cell. \<open>fill_row\<close> is
  the inner loop from column \<open>j\<close> on, \<open>fill_rows\<close> the outer loop from row \<open>i\<close> on.
\<close>

fun fill_row :: "(real \<Rightarrow> error + cell) \<Rightarrow> nat \<Rightarrow> nat \<Rightarrow> real list \<Rightarrow> matrix \<Rightarrow> error + matrix" where
  "fill_row f i j [] M = Inr M"
| "fill_row f i j (spot # spots) M =
     (case f spot of
        Inl e \<Rightarrow> Inl e
      | Inr v \<Rightarrow>
          (case set_cell M i j v of
             Inl e \<Rightarrow> Inl e
           | Inr M' \<Rightarrow> fill_row f i (Suc j) spots M'))"

fun fill_rows :: "(nat \<Rightarrow> real \<Rightarrow> real \<Rightarrow> error + cell) \<Rightarrow> real list \<Rightarrow> nat \<Rightarrow> real list \<Rightarrow> matrix
    \<Rightarrow> error + matrix" where
  "fill_rows f spot_range i [] M = Inr M"
| "fill_rows f spot_range i (vol # vols) M =
     (case fill_row (f i vol) i 0 spot_range M of
        Inl e \<Rightarrow> Inl e
      | Inr M' \<Rightarrow> fill_rows f spot_range (Suc i) vols M')"

definition heatmap_cell :: "BlackScholes \<Rightarrow> real \<Rightarrow> string \<Rightarrow> nat \<Rightarrow> real \<Rightarrow> real \<Rightarrow> error + cell" where
  "heatmap_cell bs_model strike' option_type i vol spot =
     Inr (predicted_price option_type
       \<lparr>time_to_maturity = time_to_maturity bs_model, strike = strike',
        current_price = spot, volatility = vol, interest_rate = interest_rate bs_model\<rparr>)"

text \<open>The matrix \<open>price_diffs\<close> that \<open>plot_heatmap\<close> hands to the renderer.\<close>

definition plot_heatmap :: "BlackScholes \<Rightarrow> real list \<Rightarrow> real list \<Rightarrow> real \<Rightarrow> string \<Rightarrow> error + matrix" where
  "plot_heatmap bs_model spot_range vol_range strike' option_type =
     fill_rows (heatmap_cell bs_model strike' option_type) spot_range 0 vol_range
       (zeros (length vol_range) (length spot_range))"

definition diff_cell :: "BlackScholes \<Rightarrow> real list \<Rightarrow> string \<Rightarrow> nat \<Rightarrow> real \<Rightarrow> real \<Rightarrow> error + cell" where
  "diff_cell bs_model purchase_price_range option_type i vol spot =
     (let predicted = predicted_price option_type
        \<lparr>time_to_maturity = time_to_maturity bs_model, strike = strike bs_model,
         current_price = spot, volatility = vol, interest_rate = interest_rate bs_model\<rparr>
      in case get purchase_price_range i of
           Inl e \<Rightarrow> Inl e
         | Inr p \<Rightarrow> Inr (map_option (\<lambda>x. x - p) predicted))"

text \<open>The matrix \<open>price_diffs\<close> that \<open>plot_price_diff_colormap\<close> hands to the renderer.\<close>

definition plot_price_diff_colormap ::
    "BlackScholes \<Rightarrow> real list \<Rightarrow> real list \<Rightarrow> real list \<Rightarrow> string \<Rightarrow> error + matrix" where
  "plot_price_diff_colormap bs_model spot_range vol_range purchase_price_range option_type =
     fill_rows (diff_cell bs_model purchase_price_range option_type) spot_range 0 vol_range
       (zeros (length vol_range) (length spot_range))"

text \<open>
  The rows of the result, when every cell can be computed: row \<open>k\<close> holds the values of
  the cell function along \<open>spot_range\<close>.
\<close>

definition grid :: "(nat \<Rightarrow> real \<Rightarrow> real \<Rightarrow> cell) \<Rightarrow> real list \<Rightarrow> nat \<Rightarrow> real list \<Rightarrow> matrix" where
  "grid g spot_range i vols = map (\<lambda>(k, vol). map (g k vol) spot_range) (enumerate i vols)"

section \<open>Properties of the standard normal distribution\<close>

subsection \<open>The series converges everywhere; symmetry\<close>

lemma cdf_term: "cdf_coeff n * x ^ n =
  (if even n then 0 else ((- 1 / 2) ^ ((n - 1) div 2) / (fact ((n - 1) div 2) * real (2 * ((n - 1) div 2) + 1))) * x ^ (2 * ((n - 1) div 2) + 1))"
proof (cases "even n")
  case True then show ?thesis by (simp add: cdf_coeff_def)
next
  case False
  then have "2 * ((n - 1) div 2) + 1 = n" by presburger
  then show ?thesis using False by (simp add: cdf_coeff_def)
qed

lemma odd_series_summable:
  "summable (\<lambda>k. ((- 1 / 2) ^ k / (fact k * real (2 * k + 1))) * (x::real) ^ (2 * k + 1))"
proof (rule summable_comparison_test')
  show "summable (\<lambda>k. \<bar>x\<bar> * ((x\<^sup>2 / 2) ^ k /\<^sub>R fact k))"
    by (intro summable_mult summable_exp_generic)
next
  fix k :: nat
  have "norm (((- 1 / 2) ^ k / (fact k * real (2 * k + 1))) * x ^ (2 * k + 1))
      = \<bar>x\<bar> * ((x\<^sup>2 / 2) ^ k / fact k) / real (2 * k + 1)"
    by (simp add: abs_mult power_abs power_mult power_divide)
  also have "\<dots> \<le> \<bar>x\<bar> * ((x\<^sup>2 / 2) ^ k / fact k) / 1"
  proof (rule divide_left_mono)
    show "0 \<le> \<bar>x\<bar> * ((x\<^sup>2 / 2) ^ k / fact k)" by simp
  qed simp_all
  finally show "norm (((- 1 / 2) ^ k / (fact k * real (2 * k + 1))) * x ^ (2 * k + 1))
      \<le> \<bar>x\<bar> * ((x\<^sup>2 / 2) ^ k /\<^sub>R fact k)"
    by (simp add: field_simps)
qed

lemma cdf_series_summable: "summable (\<lambda>n. cdf_coeff n * (x::real) ^ n)"
proof -
  let ?g = "\<lambda>k. ((- 1 / 2) ^ k / (fact k * real (2 * k + 1))) * x ^ (2 * k + 1)"
  have "?g sums suminf ?g" using odd_series_summable by (rule summable_sums)
  then have "(\<lambda>n. if even n then 0 else ?g ((n - 1) div 2)) sums suminf ?g"
    by (rule sums_if')
  then have "(\<lambda>n. cdf_coeff n * x ^ n) sums suminf ?g"
    by (simp only: cdf_term)
  then show ?thesis by (rule sums_summable)
qed

lemma cdf_coeff_neg: "cdf_coeff n * (- x) ^ n = - (cdf_coeff n * x ^ n)"
  by (cases "even n") (simp_all add: cdf_coeff_def)

lemma gauss_int_minus: "gauss_int (- x) = - gauss_int x"
  unfolding gauss_int_def
  by (simp only: cdf_coeff_neg suminf_minus [OF cdf_series_summable])

lemma gauss_int_0: "gauss_int 0 = 0"
proof -
  have "(\<lambda>n. cdf_coeff n * (0::real) ^ n) = (\<lambda>n. 0)"
    by (rule ext) (simp add: cdf_coeff_def power_0_left)
  then show ?thesis by (simp add: gauss_int_def)
qed

lemma norm_cdf_minus: "norm_cdf (- x) = 1 - norm_cdf x"
  by (simp add: norm_cdf_def gauss_int_minus)

lemma norm_cdf_0: "norm_cdf 0 = 1 / 2"
  by (simp add: norm_cdf_def gauss_int_0)

subsection \<open>The density is the derivative of the distribution function\<close>

lemma diffs_cdf_coeff:
  "diffs cdf_coeff n = (if even n then (- 1 / 2) ^ (n div 2) / fact (n div 2) else 0)"
proof (cases "even n")
  case True
  have "real (Suc n) * (a / (b * real (Suc n))) = a / b" for a b :: real
    by simp
  then show ?thesis
    using True by (simp add: diffs_def cdf_coeff_def del: of_nat_Suc)
next
  case False
  then show ?thesis by (simp add: diffs_def cdf_coeff_def)
qed

lemma diffs_cdf_term:
  "diffs cdf_coeff n * x ^ n = (if even n then (- (x\<^sup>2) / 2) ^ (n div 2) /\<^sub>R fact (n div 2) else 0)"
proof (cases "even n")
  case True
  then have n: "2 * (n div 2) = n" by presburger
  have "x ^ n = (x\<^sup>2) ^ (n div 2)"
    by (subst (1) n [symmetric]) (simp only: power_mult)
  moreover have "(- (x\<^sup>2) / 2) ^ (n div 2) = (- 1 / 2) ^ (n div 2) * (x\<^sup>2) ^ (n div 2)"
    by (simp add: power_mult_distrib [symmetric])
  ultimately show ?thesis
    using True by (simp add: diffs_cdf_coeff field_simps)
next
  case False
  then show ?thesis by (simp add: diffs_cdf_coeff)
qed

lemma diffs_cdf_sums: "(\<lambda>n. diffs cdf_coeff n * x ^ n) sums exp (- (x\<^sup>2) / 2)"
proof -
  have "(\<lambda>k. (- (x\<^sup>2) / 2) ^ k /\<^sub>R fact k) sums exp (- (x\<^sup>2) / 2)"
    by (rule exp_converges)
  from sums_if [OF sums_zero this]
  show ?thesis by (simp add: diffs_cdf_term)
qed

lemma DERIV_gauss_int: "DERIV gauss_int x :> exp (- (x\<^sup>2) / 2)"
proof -
  have "DERIV (\<lambda>x. \<Sum>n. cdf_coeff n * x ^ n) x :> (\<Sum>n. diffs cdf_coeff n * x ^ n)"
    by (rule termdiffs_strong_converges_everywhere) (rule cdf_series_summable)
  moreover have "(\<Sum>n. diffs cdf_coeff n * x ^ n) = exp (- (x\<^sup>2) / 2)"
    using diffs_cdf_sums by (rule sums_unique [symmetric])
  ultimately show ?thesis
    by (simp add: gauss_int_def [abs_def])
qed

lemma DERIV_norm_cdf: "DERIV norm_cdf x :> norm_pdf x"
proof -
  have "DERIV (\<lambda>x. gauss_int x / sqrt (2 * pi)) x :> exp (- (x\<^sup>2) / 2) / sqrt (2 * pi)"
    by (rule DERIV_cdivide) (rule DERIV_gauss_int)
  then have "DERIV (\<lambda>x. 1 / 2 + gauss_int x / sqrt (2 * pi)) x
      :> 0 + exp (- (x\<^sup>2) / 2) / sqrt (2 * pi)"
    by (intro DERIV_add DERIV_const)
  then show ?thesis
    by (simp add: norm_cdf_def [abs_def] norm_pdf_def)
qed

subsection \<open>The distribution function lies strictly between 0 and 1\<close>

text \<open>
  The bound needs the value of the Gaussian integral. It is obtained by comparing
  \<open>exp (- t\<^sup>2 / 2)\<close> with \<open>(1 + t\<^sup>2 / (2 n)) ^ (- n)\<close>, whose integral is a Wallis
  integral after the substitution \<open>t = sqrt (2 n) * tan u\<close>.
\<close>

lemma cos_power_step:
  fixes s c p n :: real
  assumes "s * s = 1 - c * c"
  shows "(n * p * (- s)) * s + (p * c) * c + n * p = (n + 1) * (p * c * c)"
proof -
  have "(n * p * (- s)) * s = - (n * p) * (s * s)" by simp
  also have "\<dots> = - (n * p) * (1 - c * c)" by (simp only: assms)
  finally show ?thesis by (simp add: algebra_simps)
qed

lemma DERIV_cos_int: "DERIV (cos_int k) t :> cos t ^ k"
proof (induction k t rule: cos_int.induct)
  case (1 t)
  have "DERIV (\<lambda>t::real. t) t :> cos t ^ 0" by simp
  then show ?case by (simp add: cos_int.simps(1) [abs_def])
next
  case (2 t)
  have "DERIV sin t :> cos t ^ Suc 0" by simp
  then show ?case by (simp add: cos_int.simps(2) [abs_def])
next
  case (3 k t)
  have s: "sin t * sin t = 1 - cos t * cos t"
    using sin_squared_eq [of t] by (simp add: power2_eq_square)
  have p: "DERIV (\<lambda>t. cos t ^ Suc k) t :> real (Suc k) * cos t ^ k * (- sin t)"
    by (auto intro!: derivative_eq_intros simp del: power_Suc of_nat_Suc)
  have q: "DERIV (\<lambda>t. cos t ^ Suc k * sin t) t
      :> (real (Suc k) * cos t ^ k * (- sin t)) * sin t + cos t * cos t ^ Suc k"
    by (rule DERIV_mult [OF p DERIV_sin])
  have r: "DERIV (\<lambda>t. real (Suc k) * cos_int k t) t :> real (Suc k) * cos t ^ k"
    by (rule DERIV_cmult [OF 3])
  have "(real (Suc k) * cos t ^ k * (- sin t)) * sin t + cos t * cos t ^ Suc k
      + real (Suc k) * cos t ^ k
      = (real (Suc k) * cos t ^ k * (- sin t)) * sin t + (cos t ^ k * cos t) * cos t
      + real (Suc k) * cos t ^ k"
    by simp
  also have "\<dots> = (real (Suc k) + 1) * (cos t ^ k * cos t * cos t)"
    by (rule cos_power_step [OF s])
  also have "\<dots> = real (Suc (Suc k)) * cos t ^ Suc (Suc k)"
    by (simp add: mult.assoc)
  finally have e: "(real (Suc k) * cos t ^ k * (- sin t)) * sin t + cos t * cos t ^ Suc k
      + real (Suc k) * cos t ^ k = real (Suc (Suc k)) * cos t ^ Suc (Suc k)" .
  have "DERIV (\<lambda>t. (cos t ^ Suc k * sin t + real (Suc k) * cos_int k t) / real (Suc (Suc k))) t
     :> (real (Suc (Suc k)) * cos t ^ Suc (Suc k)) / real (Suc (Suc k))"
    by (rule DERIV_cdivide) (simp only: e [symmetric] DERIV_add [OF q r])
  then have "DERIV (\<lambda>t. (cos t ^ Suc k * sin t + real (Suc k) * cos_int k t) / real (Suc (Suc k))) t
     :> cos t ^ Suc (Suc k)"
    by (simp del: power_Suc of_nat_Suc)
  then show ?case by (simp only: cos_int.simps(3) [abs_def])
qed

lemma cos_int_0_aux: "t = 0 \<Longrightarrow> cos_int k t = 0"
  by (induction k t rule: cos_int.induct) simp_all

lemma cos_int_0 [simp]: "cos_int k 0 = 0"
  by (simp add: cos_int_0_aux)

lemma cos_int_mono:
  assumes "0 \<le> a" "a \<le> b" "b \<le> pi / 2"
  shows "cos_int k a \<le> cos_int k b"
proof (rule DERIV_nonneg_imp_nondecreasing [OF assms(2)])
  fix t assume "a \<le> t" "t \<le> b"
  then have "0 \<le> cos t" using assms by (intro cos_ge_zero) auto
  then have "0 \<le> cos t ^ k" by simp
  then show "\<exists>y. DERIV (cos_int k) t :> y \<and> 0 \<le> y"
    using DERIV_cos_int by blast
qed

lemma cos_int_succ_le:
  assumes "0 \<le> b" "b \<le> pi / 2"
  shows "cos_int (Suc k) b \<le> cos_int k b"
proof -
  have "(\<lambda>t. cos_int k t - cos_int (Suc k) t) 0 \<le> (\<lambda>t. cos_int k t - cos_int (Suc k) t) b"
  proof (rule DERIV_nonneg_imp_nondecreasing [OF assms(1)])
    fix t assume t: "0 \<le> t" "t \<le> b"
    then have c: "0 \<le> cos t" using assms by (intro cos_ge_zero) auto
    have "cos t ^ Suc k \<le> cos t ^ k"
      using c cos_le_one [of t] by (intro power_decreasing) auto
    moreover have "DERIV (\<lambda>t. cos_int k t - cos_int (Suc k) t) t :> cos t ^ k - cos t ^ Suc k"
      by (intro DERIV_diff DERIV_cos_int)
    ultimately show "\<exists>y. DERIV (\<lambda>t. cos_int k t - cos_int (Suc k) t) t :> y \<and> 0 \<le> y"
      by (intro exI [of _ "cos t ^ k - cos t ^ Suc k"]) simp
  qed
  then show ?thesis by simp
qed

lemma wallis_nonneg: "0 \<le> wallis k"
  using cos_int_mono [of 0 "pi / 2" k] by (simp add: wallis_def)

lemma wallis_Suc_le: "wallis (Suc k) \<le> wallis k"
  unfolding wallis_def by (rule cos_int_succ_le) simp_all

lemma wallis_Suc_Suc: "real (Suc (Suc k)) * wallis (Suc (Suc k)) = real (Suc k) * wallis k"
  by (simp add: wallis_def del: of_nat_Suc)

lemma wallis_prod: "real (Suc k) * wallis (Suc k) * wallis k = pi / 2"
proof (induction k)
  case 0
  show ?case by (simp add: wallis_def)
next
  case (Suc k)
  have "real (Suc (Suc k)) * wallis (Suc (Suc k)) * wallis (Suc k)
      = real (Suc k) * wallis k * wallis (Suc k)"
    by (simp only: wallis_Suc_Suc)
  also have "\<dots> = real (Suc k) * wallis (Suc k) * wallis k" by (simp only: mult_ac)
  also have "\<dots> = pi / 2" by (rule Suc)
  finally show ?case .
qed

lemma wallis_Suc_sq: "(wallis (Suc k))\<^sup>2 \<le> pi / (2 * real (Suc k))"
proof -
  have "wallis (Suc k) * wallis (Suc k) \<le> wallis (Suc k) * wallis k"
    by (intro mult_left_mono wallis_Suc_le wallis_nonneg)
  also have "\<dots> = pi / (2 * real (Suc k))"
    using wallis_prod [of k] by (simp add: field_simps del: of_nat_Suc)
  finally show ?thesis by (simp add: power2_eq_square)
qed

lemma exp_le_inverse_power:
  fixes x :: real
  shows "exp (- (x\<^sup>2) / 2) \<le> (1 / (1 + x\<^sup>2 / (2 * real (Suc m)))) ^ Suc m"
proof -
  let ?u = "x\<^sup>2 / (2 * real (Suc m))"
  have u: "0 \<le> ?u" by simp
  have "(1 + ?u) ^ Suc m \<le> exp ?u ^ Suc m"
    using u by (intro power_mono exp_ge_add_one_self) simp
  also have "\<dots> = exp (real (Suc m) * ?u)"
    by (rule exp_of_nat_mult [symmetric])
  also have "real (Suc m) * ?u = x\<^sup>2 / 2"
    by (simp del: of_nat_Suc)
  finally have "(1 + ?u) ^ Suc m \<le> exp (x\<^sup>2 / 2)" .
  moreover have "0 < (1 + ?u) ^ Suc m"
    using u by (intro zero_less_power) linarith
  ultimately have "1 / exp (x\<^sup>2 / 2) \<le> 1 / (1 + ?u) ^ Suc m"
    by (intro divide_left_mono) simp_all
  then show ?thesis
    by (simp add: exp_minus field_simps del: of_nat_Suc power_Suc)
qed

lemma cos_arctan_sq: "(cos (arctan y))\<^sup>2 = 1 / (1 + y\<^sup>2)"
proof -
  have "0 \<le> 1 + y\<^sup>2" by simp
  then show ?thesis
    by (simp add: cos_arctan power_divide)
qed

lemma DERIV_tan_subst:
  fixes a :: real
  assumes a: "0 < a"
  shows "DERIV (\<lambda>x. a * cos_int (2 * m) (arctan (x / a))) x :> (1 / (1 + (x / a)\<^sup>2)) ^ Suc m"
proof -
  let ?y = "x / a"
  have 1: "DERIV (\<lambda>x. x / a) x :> 1 / a"
    by (rule DERIV_cdivide) simp
  have 2: "DERIV (\<lambda>x. arctan (x / a)) x :> inverse (1 + ?y\<^sup>2) * (1 / a)"
    by (rule DERIV_chain' [OF 1 DERIV_arctan])
  have 3: "DERIV (\<lambda>x. cos_int (2 * m) (arctan (x / a))) x
      :> cos (arctan ?y) ^ (2 * m) * (inverse (1 + ?y\<^sup>2) * (1 / a))"
    by (rule DERIV_chain' [OF 2 DERIV_cos_int])
  have 4: "DERIV (\<lambda>x. a * cos_int (2 * m) (arctan (x / a))) x
      :> a * (cos (arctan ?y) ^ (2 * m) * (inverse (1 + ?y\<^sup>2) * (1 / a)))"
    by (rule DERIV_cmult [OF 3])
  have "cos (arctan ?y) ^ (2 * m) = (1 / (1 + ?y\<^sup>2)) ^ m"
    by (simp only: power_mult cos_arctan_sq)
  then have "a * (cos (arctan ?y) ^ (2 * m) * (inverse (1 + ?y\<^sup>2) * (1 / a)))
      = (1 / (1 + ?y\<^sup>2)) ^ Suc m"
    using a by (simp add: inverse_eq_divide)
  with 4 show ?thesis by simp
qed

lemma gauss_int_nonneg:
  assumes "0 \<le> x"
  shows "0 \<le> gauss_int x"
proof -
  have "gauss_int 0 \<le> gauss_int x"
  proof (rule DERIV_nonneg_imp_nondecreasing [OF assms])
    fix t :: real
    show "\<exists>y. DERIV gauss_int t :> y \<and> 0 \<le> y"
      using DERIV_gauss_int [of t] by (intro exI [of _ "exp (- (t\<^sup>2) / 2)"]) simp
  qed
  then show ?thesis by (simp add: gauss_int_0)
qed

lemma gauss_int_less:
  assumes "x < y"
  shows "gauss_int x < gauss_int y"
proof (rule DERIV_pos_imp_increasing [OF assms])
  fix t :: real
  show "\<exists>y. DERIV gauss_int t :> y \<and> 0 < y"
    using DERIV_gauss_int [of t] by (intro exI [of _ "exp (- (t\<^sup>2) / 2)"]) simp
qed

lemma gauss_int_le_wallis:
  assumes x: "0 \<le> x"
  shows "gauss_int x \<le> sqrt (2 * real (Suc m)) * wallis (2 * m)"
proof -
  let ?a = "sqrt (2 * real (Suc m))"
  let ?G = "\<lambda>x. ?a * cos_int (2 * m) (arctan (x / ?a))"
  have a: "0 < ?a" by simp
  have a2: "(t / ?a)\<^sup>2 = t\<^sup>2 / (2 * real (Suc m))" for t
    by (simp add: power_divide del: of_nat_Suc)
  have "(\<lambda>t. ?G t - gauss_int t) 0 \<le> (\<lambda>t. ?G t - gauss_int t) x"
  proof (rule DERIV_nonneg_imp_nondecreasing [OF x])
    fix t :: real
    have "DERIV (\<lambda>t. ?G t - gauss_int t) t
        :> (1 / (1 + (t / ?a)\<^sup>2)) ^ Suc m - exp (- (t\<^sup>2) / 2)"
      by (intro DERIV_diff DERIV_tan_subst [OF a] DERIV_gauss_int)
    moreover have "exp (- (t\<^sup>2) / 2) \<le> (1 / (1 + (t / ?a)\<^sup>2)) ^ Suc m"
      unfolding a2 by (rule exp_le_inverse_power)
    ultimately show "\<exists>y. DERIV (\<lambda>t. ?G t - gauss_int t) t :> y \<and> 0 \<le> y"
      by (intro exI [of _ "(1 / (1 + (t / ?a)\<^sup>2)) ^ Suc m - exp (- (t\<^sup>2) / 2)"]) simp
  qed
  then have "gauss_int x \<le> ?G x"
    by (simp add: gauss_int_0)
  also have "\<dots> \<le> ?a * wallis (2 * m)"
  proof -
    have "0 \<le> arctan (x / ?a)" using x a by simp
    moreover have "arctan (x / ?a) \<le> pi / 2"
      using arctan_ubound [of "x / ?a"] by simp
    ultimately have "cos_int (2 * m) (arctan (x / ?a)) \<le> cos_int (2 * m) (pi / 2)"
      by (intro cos_int_mono) simp_all
    then show ?thesis
      unfolding wallis_def using a by (intro mult_left_mono) simp_all
  qed
  finally show ?thesis .
qed

lemma gauss_int_sq_le:
  assumes x: "0 \<le> x"
  shows "(gauss_int x)\<^sup>2 \<le> pi / 2 * (1 + inverse (real (Suc j)))"
proof -
  let ?m = "Suc j"
  have w: "(wallis (2 * ?m))\<^sup>2 \<le> pi / (2 * real (Suc (Suc (2 * j))))"
    using wallis_Suc_sq [of "Suc (2 * j)"] by simp
  have "gauss_int x \<le> sqrt (2 * real (Suc ?m)) * wallis (2 * ?m)"
    using x by (rule gauss_int_le_wallis)
  then have "(gauss_int x)\<^sup>2 \<le> (sqrt (2 * real (Suc ?m)) * wallis (2 * ?m))\<^sup>2"
    using gauss_int_nonneg [OF x] by (intro power_mono) simp_all
  also have "\<dots> = (2 * real (Suc ?m)) * (wallis (2 * ?m))\<^sup>2"
    by (simp add: power_mult_distrib del: of_nat_Suc)
  also have "\<dots> \<le> (2 * real (Suc ?m)) * (pi / (2 * real (Suc (Suc (2 * j)))))"
    by (intro mult_left_mono w) simp
  also have "\<dots> = pi / 2 * (1 + inverse (real (Suc j)))"
    by (simp add: field_simps)
  finally show ?thesis .
qed

lemma gauss_int_le:
  assumes x: "0 \<le> x"
  shows "gauss_int x \<le> sqrt (pi / 2)"
proof -
  have "(gauss_int x)\<^sup>2 \<le> pi / 2"
  proof (rule ccontr)
    assume "\<not> (gauss_int x)\<^sup>2 \<le> pi / 2"
    then have "0 < ((gauss_int x)\<^sup>2 - pi / 2) / (pi / 2)" by simp
    then obtain j where j: "inverse (real (Suc j)) < ((gauss_int x)\<^sup>2 - pi / 2) / (pi / 2)"
      using reals_Archimedean by blast
    then have "pi / 2 * inverse (real (Suc j)) < (gauss_int x)\<^sup>2 - pi / 2"
      by (simp add: field_simps del: of_nat_Suc)
    then have "pi / 2 * (1 + inverse (real (Suc j))) < (gauss_int x)\<^sup>2"
      by (simp add: algebra_simps del: of_nat_Suc)
    with gauss_int_sq_le [OF x, of j] show False by simp
  qed
  then show ?thesis by (rule real_le_rsqrt)
qed

lemma gauss_int_less_bound: "gauss_int x < sqrt (pi / 2)"
proof (cases "0 \<le> x")
  case True
  have "gauss_int x < gauss_int (x + 1)" by (rule gauss_int_less) simp
  also have "\<dots> \<le> sqrt (pi / 2)" using True by (intro gauss_int_le) simp
  finally show ?thesis .
next
  case False
  then have "gauss_int x < gauss_int 0" by (intro gauss_int_less) simp
  also have "\<dots> = 0" by (rule gauss_int_0)
  also have "0 < sqrt (pi / 2)" by simp
  finally show ?thesis .
qed

lemma norm_cdf_less_1: "norm_cdf x < 1"
proof -
  have "sqrt (pi / 2) / sqrt (2 * pi) = 1 / 2"
  proof -
    have "sqrt (pi / 2) / sqrt (2 * pi) = sqrt ((pi / 2) / (2 * pi))"
      by (rule real_sqrt_divide [symmetric])
    also have "(pi / 2) / (2 * pi) = (1 / 2)\<^sup>2" by (simp add: power2_eq_square)
    also have "sqrt ((1 / 2)\<^sup>2) = 1 / (2::real)" by (simp only: real_sqrt_abs)
    finally show ?thesis .
  qed
  moreover have "gauss_int x / sqrt (2 * pi) < sqrt (pi / 2) / sqrt (2 * pi)"
    using gauss_int_less_bound [of x] by (intro divide_strict_right_mono) simp_all
  ultimately have "gauss_int x / sqrt (2 * pi) < 1 / 2" by (simp only:)
  then show ?thesis unfolding norm_cdf_def by linarith
qed

lemma norm_cdf_pos: "0 < norm_cdf x"
  using norm_cdf_less_1 [of "- x"] by (simp add: norm_cdf_minus)

lemma norm_pdf_pos: "0 < norm_pdf x"
  by (simp add: norm_pdf_def)

section \<open>Properties of the pricing engine\<close>

lemma valid_real_arith: "valid b \<Longrightarrow> real_arith b"
  by (simp add: valid_def real_arith_def)

lemma norm_pdf_shift: "norm_pdf (x - v) = norm_pdf x * exp (x * v - v\<^sup>2 / 2)"
proof -
  have "- ((x - v)\<^sup>2) / 2 = - (x\<^sup>2) / 2 + (x * v - v\<^sup>2 / 2)"
    by (simp add: power2_eq_square field_simps)
  then have "exp (- ((x - v)\<^sup>2) / 2) = exp (- (x\<^sup>2) / 2) * exp (x * v - v\<^sup>2 / 2)"
    by (simp only: exp_add)
  then show ?thesis
    by (simp add: norm_pdf_def)
qed

lemma d1_times_vol:
  assumes "real_arith b"
  shows "d1 b * (volatility b * sqrt (time_to_maturity b))
         - (volatility b * sqrt (time_to_maturity b))\<^sup>2 / 2
       = ln (current_price b / strike b) + interest_rate b * time_to_maturity b"
proof -
  have v: "volatility b * sqrt (time_to_maturity b) \<noteq> 0"
    using assms by (simp add: real_arith_def)
  have T: "(sqrt (time_to_maturity b))\<^sup>2 = time_to_maturity b"
    using assms by (simp add: real_arith_def)
  have e1: "d1 b * (volatility b * sqrt (time_to_maturity b))
      = ln (current_price b / strike b)
        + (interest_rate b + 0.5 * (volatility b)\<^sup>2) * time_to_maturity b"
    using v by (simp add: d1_def)
  have e2: "(volatility b * sqrt (time_to_maturity b))\<^sup>2 = (volatility b)\<^sup>2 * time_to_maturity b"
    by (simp only: power_mult_distrib T)
  show ?thesis
    by (simp only: e1 e2) (simp add: algebra_simps)
qed

lemma pdf_identity:
  assumes "real_arith b"
  shows "current_price b * norm_pdf (d1 b)
       = strike b * exp (- (interest_rate b * time_to_maturity b)) * norm_pdf (d2 b)"
proof -
  have K: "strike b \<noteq> 0" and q: "0 < current_price b / strike b"
    using assms by (simp_all add: real_arith_def)
  have "norm_pdf (d2 b) = norm_pdf (d1 b)
      * exp (ln (current_price b / strike b) + interest_rate b * time_to_maturity b)"
    unfolding d2_def norm_pdf_shift d1_times_vol [OF assms] ..
  also have "\<dots> = norm_pdf (d1 b) * (current_price b / strike b)
      * exp (interest_rate b * time_to_maturity b)"
    using q by (simp add: exp_add)
  finally show ?thesis
    using K by (simp add: exp_minus field_simps)
qed

lemma DERIV_price:
  assumes A: "DERIV A x :> A'" and B: "DERIV B x :> B'"
    and g: "DERIV g x :> D" and h: "DERIV h x :> E"
    and idt: "A x * norm_pdf (g x) = B x * norm_pdf (h x)"
  shows "DERIV (\<lambda>x. A x * norm_cdf (g x) - B x * norm_cdf (h x)) x
     :> A' * norm_cdf (g x) - B' * norm_cdf (h x) + B x * norm_pdf (h x) * (D - E)"
proof -
  have cg: "DERIV (\<lambda>x. norm_cdf (g x)) x :> norm_pdf (g x) * D"
    by (rule DERIV_chain' [OF g DERIV_norm_cdf])
  have ch: "DERIV (\<lambda>x. norm_cdf (h x)) x :> norm_pdf (h x) * E"
    by (rule DERIV_chain' [OF h DERIV_norm_cdf])
  have "DERIV (\<lambda>x. A x * norm_cdf (g x) - B x * norm_cdf (h x)) x
     :> (A' * norm_cdf (g x) + norm_pdf (g x) * D * A x)
        - (B' * norm_cdf (h x) + norm_pdf (h x) * E * B x)"
    by (intro DERIV_diff DERIV_mult A B cg ch)
  moreover have "(A' * norm_cdf (g x) + norm_pdf (g x) * D * A x)
        - (B' * norm_cdf (h x) + norm_pdf (h x) * E * B x)
      = A' * norm_cdf (g x) - B' * norm_cdf (h x) + (A x * norm_pdf (g x)) * D
        - B x * norm_pdf (h x) * E"
    by (simp add: algebra_simps)
  ultimately show ?thesis
    by (simp only: idt) (simp add: algebra_simps)
qed

lemma calculate_prices_Some:
  assumes "real_arith b"
  shows "calculate_prices b = Some \<lparr>
          call_price = call_value b,
          put_price = put_value b,
          call_delta = norm_cdf (d1 b),
          put_delta = 1 - norm_cdf (d1 b),
          call_gamma = norm_pdf (d1 b) / (strike b * volatility b * sqrt (time_to_maturity b)),
          put_gamma = norm_pdf (d1 b) / (strike b * volatility b * sqrt (time_to_maturity b))
        \<rparr>"
  using assms by (simp add: calculate_prices_def)

lemma put_value_parity:
  "put_value b = call_value b - current_price b
     + strike b * exp (- (interest_rate b * time_to_maturity b))"
  by (simp add: put_value_def call_value_def norm_cdf_minus algebra_simps)

subsection \<open>Derivatives of the prices in the spot price, the volatility and the strike\<close>

lemma DERIV_d1_spot:
  assumes "0 < x" "0 < strike b"
  shows "DERIV (\<lambda>x. d1 (b\<lparr>current_price := x\<rparr>)) x
     :> 1 / (x * (volatility b * sqrt (time_to_maturity b)))"
proof -
  have "DERIV (\<lambda>x. (ln (x / strike b)
            + (interest_rate b + 0.5 * (volatility b)\<^sup>2) * time_to_maturity b)
          / (volatility b * sqrt (time_to_maturity b))) x
     :> (1 / x) / (volatility b * sqrt (time_to_maturity b))"
    using assms by (intro DERIV_cdivide) (auto intro!: derivative_eq_intros simp: field_simps)
  then show ?thesis by (simp add: d1_def)
qed

lemma DERIV_d2_spot:
  assumes "0 < x" "0 < strike b"
  shows "DERIV (\<lambda>x. d2 (b\<lparr>current_price := x\<rparr>)) x
     :> 1 / (x * (volatility b * sqrt (time_to_maturity b)))"
proof -
  have "DERIV (\<lambda>x. d1 (b\<lparr>current_price := x\<rparr>) - volatility b * sqrt (time_to_maturity b)) x
     :> 1 / (x * (volatility b * sqrt (time_to_maturity b))) - 0"
    by (intro DERIV_diff DERIV_d1_spot assms DERIV_const)
  then show ?thesis by (simp add: d2_def)
qed

lemma DERIV_call_spot:
  assumes "0 < x" "0 < strike b" "0 < time_to_maturity b" "volatility b \<noteq> 0"
  shows "DERIV (\<lambda>x. call_value (b\<lparr>current_price := x\<rparr>)) x :> norm_cdf (d1 (b\<lparr>current_price := x\<rparr>))"
proof -
  let ?e = "exp (- (interest_rate b * time_to_maturity b))"
  let ?D = "1 / (x * (volatility b * sqrt (time_to_maturity b)))"
  have ra: "real_arith (b\<lparr>current_price := x\<rparr>)"
    using assms by (simp add: real_arith_def)
  have idt: "x * norm_pdf (d1 (b\<lparr>current_price := x\<rparr>))
      = strike b * ?e * norm_pdf (d2 (b\<lparr>current_price := x\<rparr>))"
    using pdf_identity [OF ra] by simp
  have "DERIV (\<lambda>x. x * norm_cdf (d1 (b\<lparr>current_price := x\<rparr>))
        - strike b * ?e * norm_cdf (d2 (b\<lparr>current_price := x\<rparr>))) x
     :> 1 * norm_cdf (d1 (b\<lparr>current_price := x\<rparr>))
        - 0 * norm_cdf (d2 (b\<lparr>current_price := x\<rparr>))
        + strike b * ?e * norm_pdf (d2 (b\<lparr>current_price := x\<rparr>)) * (?D - ?D)"
    by (rule DERIV_price [OF DERIV_ident DERIV_const DERIV_d1_spot DERIV_d2_spot idt])
       (rule assms)+
  then show ?thesis by (simp add: call_value_def)
qed

lemma DERIV_put_spot:
  assumes "0 < x" "0 < strike b" "0 < time_to_maturity b" "volatility b \<noteq> 0"
  shows "DERIV (\<lambda>x. put_value (b\<lparr>current_price := x\<rparr>)) x
     :> norm_cdf (d1 (b\<lparr>current_price := x\<rparr>)) - 1"
proof -
  have "DERIV (\<lambda>x. call_value (b\<lparr>current_price := x\<rparr>) - x
          + strike b * exp (- (interest_rate b * time_to_maturity b))) x
     :> norm_cdf (d1 (b\<lparr>current_price := x\<rparr>)) - 1 + 0"
    by (intro DERIV_add DERIV_diff DERIV_call_spot assms DERIV_ident DERIV_const)
  then show ?thesis by (simp add: put_value_parity)
qed

lemma DERIV_call_delta_spot:
  assumes "0 < x" "0 < strike b"
  shows "DERIV (\<lambda>x. norm_cdf (d1 (b\<lparr>current_price := x\<rparr>))) x
     :> norm_pdf (d1 (b\<lparr>current_price := x\<rparr>))
        / (x * (volatility b * sqrt (time_to_maturity b)))"
proof -
  have "DERIV (\<lambda>x. norm_cdf (d1 (b\<lparr>current_price := x\<rparr>))) x
     :> norm_pdf (d1 (b\<lparr>current_price := x\<rparr>))
        * (1 / (x * (volatility b * sqrt (time_to_maturity b))))"
    by (rule DERIV_chain' [OF DERIV_d1_spot [OF assms] DERIV_norm_cdf])
  then show ?thesis by simp
qed

lemma DERIV_d1_vol:
  assumes "x \<noteq> 0" "0 < time_to_maturity b"
  shows "\<exists>D. DERIV (\<lambda>x. d1 (b\<lparr>volatility := x\<rparr>)) x :> D"
proof -
  have "x * sqrt (time_to_maturity b) \<noteq> 0" using assms by simp
  then have "\<exists>D. DERIV (\<lambda>x. (ln (current_price b / strike b)
            + (interest_rate b + 0.5 * x\<^sup>2) * time_to_maturity b)
          / (x * sqrt (time_to_maturity b))) x :> D"
    by (intro exI) (auto intro!: derivative_eq_intros)
  then show ?thesis by (simp add: d1_def)
qed

lemma DERIV_call_vol:
  assumes "x \<noteq> 0" "0 < time_to_maturity b" "strike b \<noteq> 0" "0 < current_price b / strike b"
  shows "DERIV (\<lambda>x. call_value (b\<lparr>volatility := x\<rparr>)) x
     :> strike b * exp (- (interest_rate b * time_to_maturity b))
        * norm_pdf (d2 (b\<lparr>volatility := x\<rparr>)) * sqrt (time_to_maturity b)"
proof -
  let ?e = "exp (- (interest_rate b * time_to_maturity b))"
  obtain D where D: "DERIV (\<lambda>x. d1 (b\<lparr>volatility := x\<rparr>)) x :> D"
    using DERIV_d1_vol [OF assms(1,2)] by blast
  have "DERIV (\<lambda>x. d1 (b\<lparr>volatility := x\<rparr>) - x * sqrt (time_to_maturity b)) x
     :> D - 1 * sqrt (time_to_maturity b)"
    by (intro DERIV_diff D DERIV_cmult_right DERIV_ident)
  then have E: "DERIV (\<lambda>x. d2 (b\<lparr>volatility := x\<rparr>)) x :> D - sqrt (time_to_maturity b)"
    by (simp add: d2_def)
  have ra: "real_arith (b\<lparr>volatility := x\<rparr>)"
    using assms by (simp add: real_arith_def)
  have idt: "current_price b * norm_pdf (d1 (b\<lparr>volatility := x\<rparr>))
      = strike b * ?e * norm_pdf (d2 (b\<lparr>volatility := x\<rparr>))"
    using pdf_identity [OF ra] by simp
  have "DERIV (\<lambda>x. current_price b * norm_cdf (d1 (b\<lparr>volatility := x\<rparr>))
        - strike b * ?e * norm_cdf (d2 (b\<lparr>volatility := x\<rparr>))) x
     :> 0 * norm_cdf (d1 (b\<lparr>volatility := x\<rparr>))
        - 0 * norm_cdf (d2 (b\<lparr>volatility := x\<rparr>))
        + strike b * ?e * norm_pdf (d2 (b\<lparr>volatility := x\<rparr>))
          * (D - (D - sqrt (time_to_maturity b)))"
    by (rule DERIV_price [OF DERIV_const DERIV_const D E idt])
  then show ?thesis by (simp add: call_value_def)
qed

lemma DERIV_put_vol:
  assumes "x \<noteq> 0" "0 < time_to_maturity b" "strike b \<noteq> 0" "0 < current_price b / strike b"
  shows "DERIV (\<lambda>x. put_value (b\<lparr>volatility := x\<rparr>)) x
     :> strike b * exp (- (interest_rate b * time_to_maturity b))
        * norm_pdf (d2 (b\<lparr>volatility := x\<rparr>)) * sqrt (time_to_maturity b)"
proof -
  have "DERIV (\<lambda>x. call_value (b\<lparr>volatility := x\<rparr>) - current_price b
          + strike b * exp (- (interest_rate b * time_to_maturity b))) x
     :> strike b * exp (- (interest_rate b * time_to_maturity b))
        * norm_pdf (d2 (b\<lparr>volatility := x\<rparr>)) * sqrt (time_to_maturity b) - 0 + 0"
    by (intro DERIV_add DERIV_diff DERIV_call_vol assms DERIV_const)
  then show ?thesis by (simp add: put_value_parity)
qed

lemma DERIV_d1_strike:
  assumes "0 < x" "0 < current_price b"
  shows "\<exists>D. DERIV (\<lambda>x. d1 (b\<lparr>strike := x\<rparr>)) x :> D"
proof -
  have "0 < current_price b / x" using assms by simp
  then have "\<exists>D. DERIV (\<lambda>x. ln (current_price b / x)
            + (interest_rate b + 0.5 * (volatility b)\<^sup>2) * time_to_maturity b) x :> D"
    using assms by (intro exI) (auto intro!: derivative_eq_intros)
  then obtain D where "DERIV (\<lambda>x. ln (current_price b / x)
            + (interest_rate b + 0.5 * (volatility b)\<^sup>2) * time_to_maturity b) x :> D"
    by blast
  then have "DERIV (\<lambda>x. (ln (current_price b / x)
            + (interest_rate b + 0.5 * (volatility b)\<^sup>2) * time_to_maturity b)
          / (volatility b * sqrt (time_to_maturity b))) x
      :> D / (volatility b * sqrt (time_to_maturity b))"
    by (rule DERIV_cdivide)
  then show ?thesis by (auto simp add: d1_def)
qed

lemma DERIV_call_strike:
  assumes "0 < x" "0 < current_price b" "0 < time_to_maturity b" "volatility b \<noteq> 0"
  shows "DERIV (\<lambda>x. call_value (b\<lparr>strike := x\<rparr>)) x
     :> - (exp (- (interest_rate b * time_to_maturity b)) * norm_cdf (d2 (b\<lparr>strike := x\<rparr>)))"
proof -
  let ?e = "exp (- (interest_rate b * time_to_maturity b))"
  obtain D where D: "DERIV (\<lambda>x. d1 (b\<lparr>strike := x\<rparr>)) x :> D"
    using DERIV_d1_strike [OF assms(1,2)] by blast
  have "DERIV (\<lambda>x. d1 (b\<lparr>strike := x\<rparr>) - volatility b * sqrt (time_to_maturity b)) x
     :> D - 0"
    by (intro DERIV_diff D DERIV_const)
  then have E: "DERIV (\<lambda>x. d2 (b\<lparr>strike := x\<rparr>)) x :> D"
    by (simp add: d2_def)
  have B: "DERIV (\<lambda>x. x * ?e) x :> 1 * ?e"
    by (intro DERIV_cmult_right DERIV_ident)
  have ra: "real_arith (b\<lparr>strike := x\<rparr>)"
    using assms by (simp add: real_arith_def)
  have idt: "current_price b * norm_pdf (d1 (b\<lparr>strike := x\<rparr>))
      = x * ?e * norm_pdf (d2 (b\<lparr>strike := x\<rparr>))"
    using pdf_identity [OF ra] by simp
  have "DERIV (\<lambda>x. current_price b * norm_cdf (d1 (b\<lparr>strike := x\<rparr>))
        - x * ?e * norm_cdf (d2 (b\<lparr>strike := x\<rparr>))) x
     :> 0 * norm_cdf (d1 (b\<lparr>strike := x\<rparr>))
        - 1 * ?e * norm_cdf (d2 (b\<lparr>strike := x\<rparr>))
        + x * ?e * norm_pdf (d2 (b\<lparr>strike := x\<rparr>)) * (D - D)"
    by (rule DERIV_price [OF DERIV_const B D E idt])
  then show ?thesis by (simp add: call_value_def)
qed

lemma DERIV_put_strike:
  assumes "0 < x" "0 < current_price b" "0 < time_to_maturity b" "volatility b \<noteq> 0"
  shows "DERIV (\<lambda>x. put_value (b\<lparr>strike := x\<rparr>)) x
     :> exp (- (interest_rate b * time_to_maturity b)) * (1 - norm_cdf (d2 (b\<lparr>strike := x\<rparr>)))"
proof -
  let ?e = "exp (- (interest_rate b * time_to_maturity b))"
  have "DERIV (\<lambda>x. call_value (b\<lparr>strike := x\<rparr>) - current_price b + x * ?e) x
     :> - (?e * norm_cdf (d2 (b\<lparr>strike := x\<rparr>))) - 0 + 1 * ?e"
    by (intro DERIV_add DERIV_diff DERIV_call_strike assms DERIV_const DERIV_cmult_right DERIV_ident)
  then show ?thesis by (simp add: put_value_parity algebra_simps)
qed

subsection \<open>Monotonicity of the prices\<close>

lemma call_value_mono_spot:
  assumes "0 < s" "s \<le> s'" "0 < strike b" "0 < time_to_maturity b" "volatility b \<noteq> 0"
  shows "call_value (b\<lparr>current_price := s\<rparr>) \<le> call_value (b\<lparr>current_price := s'\<rparr>)"
proof (rule DERIV_nonneg_imp_nondecreasing [OF assms(2)])
  fix x assume "s \<le> x" "x \<le> s'"
  then have "0 < x" using assms(1) by simp
  then have "DERIV (\<lambda>x. call_value (b\<lparr>current_price := x\<rparr>)) x
      :> norm_cdf (d1 (b\<lparr>current_price := x\<rparr>))"
    using assms by (intro DERIV_call_spot)
  moreover have "0 \<le> norm_cdf (d1 (b\<lparr>current_price := x\<rparr>))"
    using norm_cdf_pos by (rule less_imp_le)
  ultimately show "\<exists>y. DERIV (\<lambda>x. call_value (b\<lparr>current_price := x\<rparr>)) x :> y \<and> 0 \<le> y"
    by blast
qed

lemma put_value_antimono_spot:
  assumes "0 < s" "s \<le> s'" "0 < strike b" "0 < time_to_maturity b" "volatility b \<noteq> 0"
  shows "put_value (b\<lparr>current_price := s'\<rparr>) \<le> put_value (b\<lparr>current_price := s\<rparr>)"
proof (rule DERIV_nonpos_imp_nonincreasing [OF assms(2)])
  fix x assume "s \<le> x" "x \<le> s'"
  then have "0 < x" using assms(1) by simp
  then have "DERIV (\<lambda>x. put_value (b\<lparr>current_price := x\<rparr>)) x
      :> norm_cdf (d1 (b\<lparr>current_price := x\<rparr>)) - 1"
    using assms by (intro DERIV_put_spot)
  moreover have "norm_cdf (d1 (b\<lparr>current_price := x\<rparr>)) - 1 \<le> 0"
    using norm_cdf_less_1 [of "d1 (b\<lparr>current_price := x\<rparr>)"] by simp
  ultimately show "\<exists>y. DERIV (\<lambda>x. put_value (b\<lparr>current_price := x\<rparr>)) x :> y \<and> y \<le> 0"
    by blast
qed

lemma vega_nonneg:
  assumes "0 < strike b" "0 < time_to_maturity b"
  shows "0 \<le> strike b * exp (- (interest_rate b * time_to_maturity b))
        * norm_pdf (d2 (b\<lparr>volatility := x\<rparr>)) * sqrt (time_to_maturity b)"
  using assms norm_pdf_pos [of "d2 (b\<lparr>volatility := x\<rparr>)"]
  by (intro mult_nonneg_nonneg) simp_all

lemma call_value_mono_vol:
  assumes "0 < v" "v \<le> v'" "0 < strike b" "0 < current_price b" "0 < time_to_maturity b"
  shows "call_value (b\<lparr>volatility := v\<rparr>) \<le> call_value (b\<lparr>volatility := v'\<rparr>)"
proof (rule DERIV_nonneg_imp_nondecreasing [OF assms(2)])
  fix x assume "v \<le> x" "x \<le> v'"
  then have "x \<noteq> 0" using assms(1) by simp
  then have "DERIV (\<lambda>x. call_value (b\<lparr>volatility := x\<rparr>)) x
      :> strike b * exp (- (interest_rate b * time_to_maturity b))
        * norm_pdf (d2 (b\<lparr>volatility := x\<rparr>)) * sqrt (time_to_maturity b)"
    using assms by (intro DERIV_call_vol) simp_all
  then show "\<exists>y. DERIV (\<lambda>x. call_value (b\<lparr>volatility := x\<rparr>)) x :> y \<and> 0 \<le> y"
    using vega_nonneg [OF assms(3) assms(5)] by blast
qed

lemma put_value_mono_vol:
  assumes "0 < v" "v \<le> v'" "0 < strike b" "0 < current_price b" "0 < time_to_maturity b"
  shows "put_value (b\<lparr>volatility := v\<rparr>) \<le> put_value (b\<lparr>volatility := v'\<rparr>)"
proof (rule DERIV_nonneg_imp_nondecreasing [OF assms(2)])
  fix x assume "v \<le> x" "x \<le> v'"
  then have "x \<noteq> 0" using assms(1) by simp
  then have "DERIV (\<lambda>x. put_value (b\<lparr>volatility := x\<rparr>)) x
      :> strike b * exp (- (interest_rate b * time_to_maturity b))
        * norm_pdf (d2 (b\<lparr>volatility := x\<rparr>)) * sqrt (time_to_maturity b)"
    using assms by (intro DERIV_put_vol) simp_all
  then show "\<exists>y. DERIV (\<lambda>x. put_value (b\<lparr>volatility := x\<rparr>)) x :> y \<and> 0 \<le> y"
    using vega_nonneg [OF assms(3) assms(5)] by blast
qed

lemma call_value_less_strike:
  assumes "0 < k" "k < k'" "0 < current_price b" "0 < time_to_maturity b" "volatility b \<noteq> 0"
  shows "call_value (b\<lparr>strike := k'\<rparr>) < call_value (b\<lparr>strike := k\<rparr>)"
proof (rule DERIV_neg_imp_decreasing [OF assms(2)])
  fix x assume "k \<le> x" "x \<le> k'"
  then have "0 < x" using assms(1) by simp
  then have "DERIV (\<lambda>x. call_value (b\<lparr>strike := x\<rparr>)) x
      :> - (exp (- (interest_rate b * time_to_maturity b)) * norm_cdf (d2 (b\<lparr>strike := x\<rparr>)))"
    using assms by (intro DERIV_call_strike)
  moreover have "- (exp (- (interest_rate b * time_to_maturity b))
      * norm_cdf (d2 (b\<lparr>strike := x\<rparr>))) < 0"
    using norm_cdf_pos [of "d2 (b\<lparr>strike := x\<rparr>)"] by simp
  ultimately show "\<exists>y. DERIV (\<lambda>x. call_value (b\<lparr>strike := x\<rparr>)) x :> y \<and> y < 0"
    by blast
qed

lemma put_value_less_strike:
  assumes "0 < k" "k < k'" "0 < current_price b" "0 < time_to_maturity b" "volatility b \<noteq> 0"
  shows "put_value (b\<lparr>strike := k\<rparr>) < put_value (b\<lparr>strike := k'\<rparr>)"
proof (rule DERIV_pos_imp_increasing [OF assms(2)])
  fix x assume "k \<le> x" "x \<le> k'"
  then have "0 < x" using assms(1) by simp
  then have "DERIV (\<lambda>x. put_value (b\<lparr>strike := x\<rparr>)) x
      :> exp (- (interest_rate b * time_to_maturity b)) * (1 - norm_cdf (d2 (b\<lparr>strike := x\<rparr>)))"
    using assms by (intro DERIV_put_strike)
  moreover have "0 < exp (- (interest_rate b * time_to_maturity b))
      * (1 - norm_cdf (d2 (b\<lparr>strike := x\<rparr>)))"
    using norm_cdf_less_1 [of "d2 (b\<lparr>strike := x\<rparr>)"] by simp
  ultimately show "\<exists>y. DERIV (\<lambda>x. put_value (b\<lparr>strike := x\<rparr>)) x :> y \<and> 0 < y"
    by blast
qed

lemma call_value_strike_inj:
  assumes "0 < k" "0 < k'" "0 < current_price b" "0 < time_to_maturity b" "volatility b \<noteq> 0"
    and "call_value (b\<lparr>strike := k\<rparr>) = call_value (b\<lparr>strike := k'\<rparr>)"
  shows "k = k'"
proof (rule ccontr)
  assume "k \<noteq> k'"
  then consider "k < k'" | "k' < k" by linarith
  then show False
  proof cases
    case 1
    from call_value_less_strike [OF assms(1) 1 assms(3-5)] assms(6) show False by simp
  next
    case 2
    from call_value_less_strike [OF assms(2) 2 assms(3-5)] assms(6) show False by simp
  qed
qed

lemma put_value_strike_inj:
  assumes "0 < k" "0 < k'" "0 < current_price b" "0 < time_to_maturity b" "volatility b \<noteq> 0"
    and "put_value (b\<lparr>strike := k\<rparr>) = put_value (b\<lparr>strike := k'\<rparr>)"
  shows "k = k'"
proof (rule ccontr)
  assume "k \<noteq> k'"
  then consider "k < k'" | "k' < k" by linarith
  then show False
  proof cases
    case 1
    from put_value_less_strike [OF assms(1) 1 assms(3-5)] assms(6) show False by simp
  next
    case 2
    from put_value_less_strike [OF assms(2) 2 assms(3-5)] assms(6) show False by simp
  qed
qed

section \<open>Properties of the grid evaluator\<close>

subsection \<open>The loops\<close>

lemma fill_row_Inr:
  assumes "\<forall>s \<in> set spots. f s = Inr (g s)" "i < length M" "j + length spots \<le> length (M ! i)"
  shows "fill_row f i j spots M
     = Inr (M[i := take j (M ! i) @ map g spots @ drop (j + length spots) (M ! i)])"
  using assms
proof (induction spots arbitrary: j M)
  case Nil
  then show ?case by simp
next
  case (Cons spot spots)
  let ?M' = "M[i := (M ! i)[j := g spot]]"
  have j: "j < length (M ! i)" using Cons.prems(3) by simp
  have sc: "set_cell M i j (g spot) = Inr ?M'"
    using Cons.prems(2) j by (simp add: set_cell_def)
  have row: "?M' ! i = (M ! i)[j := g spot]"
    using Cons.prems(2) by simp
  have "fill_row f i (Suc j) spots ?M'
     = Inr (?M'[i := take (Suc j) (?M' ! i) @ map g spots
          @ drop (Suc j + length spots) (?M' ! i)])"
    using Cons.prems by (intro Cons.IH) simp_all
  moreover have "take (Suc j) ((M ! i)[j := g spot]) = take j (M ! i) @ [g spot]"
    using j by (simp add: take_Suc_conv_app_nth)
  moreover have "drop (Suc j + length spots) ((M ! i)[j := g spot])
      = drop (Suc j + length spots) (M ! i)"
    by simp
  ultimately have "fill_row f i (Suc j) spots ?M'
     = Inr (M[i := take j (M ! i) @ g spot # map g spots
          @ drop (Suc j + length spots) (M ! i)])"
    by (simp add: row)
  then show ?case
    using Cons.prems(1) sc by simp
qed

lemma fill_row_Inl:
  assumes "spots \<noteq> []" "\<forall>s \<in> set spots. f s = Inl e"
  shows "fill_row f i j spots M = Inl e"
  using assms by (cases spots) simp_all

lemma fill_rows_Inr:
  assumes "\<forall>k < length vols. \<forall>s \<in> set spot_range. f (i + k) (vols ! k) s = Inr (g (i + k) (vols ! k) s)"
    and "i + length vols \<le> length M"
    and "\<forall>k < length vols. length (M ! (i + k)) = length spot_range"
  shows "fill_rows f spot_range i vols M
     = Inr (take i M @ grid g spot_range i vols @ drop (i + length vols) M)"
  using assms
proof (induction vols arbitrary: i M)
  case Nil
  then show ?case by (simp add: grid_def)
next
  case (Cons vol vols)
  let ?row = "map (g i vol) spot_range"
  let ?M' = "M[i := ?row]"
  have i: "i < length M" using Cons.prems(2) by simp
  have len: "length (M ! i) = length spot_range"
    using Cons.prems(3) by (auto dest: spec [of _ 0])
  have shape_tail: "\<forall>k < length vols. length (M ! (Suc i + k)) = length spot_range"
  proof (intro allI impI)
    fix k assume "k < length vols"
    then have "Suc k < length (vol # vols)" by simp
    with Cons.prems(3) have "length (M ! (i + Suc k)) = length spot_range" by blast
    then show "length (M ! (Suc i + k)) = length spot_range" by simp
  qed
  have f0: "\<forall>s \<in> set spot_range. f i vol s = Inr (g i vol s)"
    using Cons.prems(1) by (auto dest: spec [of _ 0])
  have "fill_row (f i vol) i 0 spot_range M
     = Inr (M[i := take 0 (M ! i) @ map (g i vol) spot_range
          @ drop (0 + length spot_range) (M ! i)])"
    using f0 i len by (intro fill_row_Inr) simp_all
  then have row: "fill_row (f i vol) i 0 spot_range M = Inr ?M'"
    using len by simp
  have "fill_rows f spot_range (Suc i) vols ?M'
     = Inr (take (Suc i) ?M' @ grid g spot_range (Suc i) vols
          @ drop (Suc i + length vols) ?M')"
  proof (rule Cons.IH)
    show "\<forall>k < length vols. \<forall>s \<in> set spot_range.
        f (Suc i + k) (vols ! k) s = Inr (g (Suc i + k) (vols ! k) s)"
    proof (intro allI impI ballI)
      fix k s assume "k < length vols" "s \<in> set spot_range"
      then have "Suc k < length (vol # vols)" by simp
      with Cons.prems(1) \<open>s \<in> set spot_range\<close>
      have "f (i + Suc k) ((vol # vols) ! Suc k) s = Inr (g (i + Suc k) ((vol # vols) ! Suc k) s)"
        by blast
      then show "f (Suc i + k) (vols ! k) s = Inr (g (Suc i + k) (vols ! k) s)" by simp
    qed
    show "Suc i + length vols \<le> length ?M'"
      using Cons.prems(2) by simp
    show "\<forall>k < length vols. length (?M' ! (Suc i + k)) = length spot_range"
      using shape_tail by simp
  qed
  moreover have "take (Suc i) ?M' = take i M @ [?row]"
    using i by (simp add: take_Suc_conv_app_nth)
  moreover have "drop (Suc i + length vols) ?M' = drop (Suc i + length vols) M"
    by simp
  ultimately show ?case
    using row by (simp add: grid_def)
qed

lemma fill_rows_Inl:
  assumes "spot_range \<noteq> []"
    and "\<forall>k vol. \<forall>s \<in> set spot_range. f k vol s = (if k < n then Inr (g k vol s) else Inl e)"
    and "i \<le> n" "n < i + length vols"
    and "i + length vols \<le> length M"
    and "\<forall>k < length vols. length (M ! (i + k)) = length spot_range"
  shows "fill_rows f spot_range i vols M = Inl e"
  using assms(3-6)
proof (induction vols arbitrary: i M)
  case Nil
  then show ?case by simp
next
  case (Cons vol vols)
  show ?case
  proof (cases "i < n")
    case False
    then have "\<forall>s \<in> set spot_range. f i vol s = Inl e"
      using assms(2) by simp
    then have "fill_row (f i vol) i 0 spot_range M = Inl e"
      using assms(1) by (intro fill_row_Inl)
    then show ?thesis by simp
  next
    case True
    let ?row = "map (g i vol) spot_range"
    let ?M' = "M[i := ?row]"
    have i: "i < length M" using Cons.prems(3) by simp
    have len: "length (M ! i) = length spot_range"
      using Cons.prems(4) by (auto dest: spec [of _ 0])
    have shape_tail: "\<forall>k < length vols. length (M ! (Suc i + k)) = length spot_range"
    proof (intro allI impI)
      fix k assume "k < length vols"
      then have "Suc k < length (vol # vols)" by simp
      with Cons.prems(4) have "length (M ! (i + Suc k)) = length spot_range" by blast
      then show "length (M ! (Suc i + k)) = length spot_range" by simp
    qed
    have f0: "\<forall>s \<in> set spot_range. f i vol s = Inr (g i vol s)"
      using assms(2) True by simp
    have "fill_row (f i vol) i 0 spot_range M
       = Inr (M[i := take 0 (M ! i) @ map (g i vol) spot_range
            @ drop (0 + length spot_range) (M ! i)])"
      using f0 i len by (intro fill_row_Inr) simp_all
    then have row: "fill_row (f i vol) i 0 spot_range M = Inr ?M'"
      using len by simp
    have "fill_rows f spot_range (Suc i) vols ?M' = Inl e"
    proof (rule Cons.IH)
      show "Suc i \<le> n" using True by simp
      show "n < Suc i + length vols" using Cons.prems(2) by simp
      show "Suc i + length vols \<le> length ?M'" using Cons.prems(3) by simp
      show "\<forall>k < length vols. length (?M' ! (Suc i + k)) = length spot_range"
        using shape_tail by simp
    qed
    then show ?thesis using row by simp
  qed
qed

subsection \<open>The matrices of the two sweeps\<close>

lemma length_zeros: "length (zeros m n) = m"
  by (simp add: zeros_def)

lemma nth_zeros: "k < m \<Longrightarrow> length (zeros m n ! k) = n"
  by (simp add: zeros_def)

lemma length_grid: "length (grid g spot_range i vols) = length vols"
  by (simp add: grid_def)

lemma length_grid_row: "row \<in> set (grid g spot_range i vols) \<Longrightarrow> length row = length spot_range"
  by (auto simp: grid_def)

lemma grid_nth:
  assumes "k < length vols" "j < length spot_range"
  shows "grid g spot_range i vols ! k ! j = g (i + k) (vols ! k) (spot_range ! j)"
  using assms by (simp add: grid_def nth_enumerate_eq)

lemma plot_heatmap_grid:
  "plot_heatmap bs_model spot_range vol_range strike' option_type
   = Inr (grid (\<lambda>k vol spot. predicted_price option_type
       \<lparr>time_to_maturity = time_to_maturity bs_model, strike = strike',
        current_price = spot, volatility = vol, interest_rate = interest_rate bs_model\<rparr>)
      spot_range 0 vol_range)"
proof -
  let ?g = "\<lambda>(k::nat) vol spot. predicted_price option_type
       \<lparr>time_to_maturity = time_to_maturity bs_model, strike = strike',
        current_price = spot, volatility = vol, interest_rate = interest_rate bs_model\<rparr>"
  let ?Z = "zeros (length vol_range) (length spot_range)"
  have "fill_rows (heatmap_cell bs_model strike' option_type) spot_range 0 vol_range ?Z
     = Inr (take 0 ?Z @ grid ?g spot_range 0 vol_range @ drop (0 + length vol_range) ?Z)"
    by (rule fill_rows_Inr) (simp_all add: heatmap_cell_def length_zeros nth_zeros)
  then show ?thesis
    by (simp add: plot_heatmap_def length_zeros)
qed

lemma plot_price_diff_colormap_grid:
  assumes "length vol_range \<le> length purchase_price_range \<or> spot_range = []"
  shows "plot_price_diff_colormap bs_model spot_range vol_range purchase_price_range option_type
   = Inr (grid (\<lambda>k vol spot. map_option (\<lambda>x. x - purchase_price_range ! k)
       (predicted_price option_type
         \<lparr>time_to_maturity = time_to_maturity bs_model, strike = strike bs_model,
          current_price = spot, volatility = vol, interest_rate = interest_rate bs_model\<rparr>))
      spot_range 0 vol_range)"
proof -
  let ?g = "\<lambda>k vol spot. map_option (\<lambda>x. x - purchase_price_range ! k)
       (predicted_price option_type
         \<lparr>time_to_maturity = time_to_maturity bs_model, strike = strike bs_model,
          current_price = spot, volatility = vol, interest_rate = interest_rate bs_model\<rparr>)"
  let ?Z = "zeros (length vol_range) (length spot_range)"
  have "fill_rows (diff_cell bs_model purchase_price_range option_type) spot_range 0 vol_range ?Z
     = Inr (take 0 ?Z @ grid ?g spot_range 0 vol_range @ drop (0 + length vol_range) ?Z)"
  proof (rule fill_rows_Inr)
    show "\<forall>k < length vol_range. \<forall>s \<in> set spot_range.
        diff_cell bs_model purchase_price_range option_type (0 + k) (vol_range ! k) s
        = Inr (?g (0 + k) (vol_range ! k) s)"
      using assms by (auto simp: diff_cell_def get_def)
  qed (simp_all add: length_zeros nth_zeros)
  then show ?thesis
    by (simp add: plot_price_diff_colormap_def length_zeros)
qed

lemma plot_price_diff_colormap_IndexError:
  assumes "length purchase_price_range < length vol_range" "spot_range \<noteq> []"
  shows "plot_price_diff_colormap bs_model spot_range vol_range purchase_price_range option_type
   = Inl IndexError"
proof -
  let ?g = "\<lambda>k vol spot. map_option (\<lambda>x. x - purchase_price_range ! k)
       (predicted_price option_type
         \<lparr>time_to_maturity = time_to_maturity bs_model, strike = strike bs_model,
          current_price = spot, volatility = vol, interest_rate = interest_rate bs_model\<rparr>)"
  let ?Z = "zeros (length vol_range) (length spot_range)"
  have "fill_rows (diff_cell bs_model purchase_price_range option_type) spot_range 0 vol_range ?Z
     = Inl IndexError"
  proof (rule fill_rows_Inl [where n = "length purchase_price_range" and g = ?g])
    show "\<forall>k vol. \<forall>s \<in> set spot_range.
        diff_cell bs_model purchase_price_range option_type k vol s
        = (if k < length purchase_price_range then Inr (?g k vol s) else Inl IndexError)"
      by (simp add: diff_cell_def get_def)
  qed (use assms in \<open>simp_all add: length_zeros nth_zeros\<close>)
  then show ?thesis
    by (simp add: plot_price_diff_colormap_def)
qed

section \<open>The claims about the pricing engine\<close>

text \<open>
  C1. Put-call parity: on every valid input \<open>calculate_prices\<close> returns prices with
  \<open>call_price - put_price = S - K * exp (- r T)\<close>.
\<close>

theorem put_call_parity:
  assumes "valid b"
  shows "\<exists>p. calculate_prices b = Some p
     \<and> call_price p - put_price p
       = current_price b - strike b * exp (- (interest_rate b * time_to_maturity b))"
proof -
  from assms have "real_arith b" by (rule valid_real_arith)
  then show ?thesis
    by (simp add: calculate_prices_Some put_value_parity)
qed

theorem put_call_parity_witness:
  "valid \<lparr>time_to_maturity = 1, strike = 100, current_price = 100, volatility = 0.2,
      interest_rate = 0.05\<rparr>
   \<and> (\<exists>p. calculate_prices \<lparr>time_to_maturity = 1, strike = 100, current_price = 100,
          volatility = 0.2, interest_rate = 0.05\<rparr> = Some p
        \<and> call_price p - put_price p = 100 - 100 * exp (- (0.05 * 1)))"
  using put_call_parity [of "\<lparr>time_to_maturity = 1, strike = 100, current_price = 100,
      volatility = 0.2, interest_rate = 0.05\<rparr>"]
  by (simp add: valid_def)

text \<open>
  C2. The claim is that \<open>call_gamma\<close> is \<open>pdf d1 / (S * sigma * sqrt T)\<close>, with the spot
  price \<open>S\<close> in the divisor. The code divides by the strike: at spot 100 and strike 50
  (one year, volatility 0.2, rate 0.05) it stores \<open>pdf d1 / 10\<close>, where the claim asks for
  \<open>pdf d1 / 20\<close>. The derivative of the code's own \<open>call_delta\<close> in the spot price is
  \<open>pdf d1 / (S * sigma * sqrt T)\<close> (lemma \<open>DERIV_call_delta_spot\<close>). The two gammas are
  equal, as claimed.
\<close>

theorem call_gamma_divides_by_strike:
  "map_option call_gamma (calculate_prices \<lparr>time_to_maturity = 1, strike = 50,
       current_price = 100, volatility = 0.2, interest_rate = 0.05\<rparr>)
     = Some (norm_pdf (d1 \<lparr>time_to_maturity = 1, strike = 50,
         current_price = 100, volatility = 0.2, interest_rate = 0.05\<rparr>) / 10)
   \<and> norm_pdf (d1 \<lparr>time_to_maturity = 1, strike = 50,
         current_price = 100, volatility = 0.2, interest_rate = 0.05\<rparr>) / 10
     \<noteq> norm_pdf (d1 \<lparr>time_to_maturity = 1, strike = 50,
         current_price = 100, volatility = 0.2, interest_rate = 0.05\<rparr>) / (100 * 0.2 * sqrt 1)
   \<and> map_option put_gamma (calculate_prices \<lparr>time_to_maturity = 1, strike = 50,
       current_price = 100, volatility = 0.2, interest_rate = 0.05\<rparr>)
     = map_option call_gamma (calculate_prices \<lparr>time_to_maturity = 1, strike = 50,
       current_price = 100, volatility = 0.2, interest_rate = 0.05\<rparr>)"
proof -
  let ?b = "\<lparr>time_to_maturity = 1, strike = 50, current_price = 100, volatility = 0.2,
    interest_rate = 0.05\<rparr>"
  have "real_arith ?b" by (simp add: real_arith_def)
  moreover have "norm_pdf (d1 ?b) \<noteq> 0"
    using norm_pdf_pos [of "d1 ?b"] by simp
  ultimately show ?thesis
    by (simp add: calculate_prices_Some)
qed

text \<open>
  C3. The claim is that \<open>put_delta\<close> is \<open>cdf d1 - 1\<close>, which is never positive. The code
  stores \<open>1 - cdf d1\<close>: at spot 100 and strike 100 (one year, volatility 0.2, rate 0.05),
  where \<open>d1 = 0.35\<close>, it stores \<open>1 - cdf 0.35\<close>, which is positive and differs from
  \<open>cdf 0.35 - 1\<close>. The derivative of the code's own \<open>put_price\<close> in the spot price is
  \<open>cdf d1 - 1\<close> (lemma \<open>DERIV_put_spot\<close>).
\<close>

theorem put_delta_sign:
  "map_option put_delta (calculate_prices \<lparr>time_to_maturity = 1, strike = 100,
       current_price = 100, volatility = 0.2, interest_rate = 0.05\<rparr>)
     = Some (1 - norm_cdf 0.35)
   \<and> 0 < 1 - norm_cdf 0.35
   \<and> 1 - norm_cdf 0.35 \<noteq> norm_cdf 0.35 - 1"
proof -
  let ?b = "\<lparr>time_to_maturity = 1, strike = 100, current_price = 100, volatility = 0.2,
    interest_rate = 0.05\<rparr>"
  have ra: "real_arith ?b" by (simp add: real_arith_def)
  have 1: "d1 ?b = 0.35" by (simp add: d1_def power2_eq_square)
  have "map_option put_delta (calculate_prices ?b) = Some (1 - norm_cdf (d1 ?b))"
    unfolding calculate_prices_Some [OF ra] by simp
  then have "map_option put_delta (calculate_prices ?b) = Some (1 - norm_cdf 0.35)"
    by (simp only: 1)
  moreover have "norm_cdf 0.35 < 1" by (rule norm_cdf_less_1)
  ultimately show ?thesis by simp
qed

text \<open>
  C8. The claim is that an input with a strike, spot price, volatility or time to maturity
  that is not positive raises InvalidParameter before anything is computed. The code
  checks nothing: with volatility \<open>-0.2\<close> (spot and strike 100, one year, rate 0.05)
  every step is ordinary arithmetic, \<open>d1 = -0.35\<close> and \<open>d2 = -0.15\<close>, and it returns
  prices.
\<close>

theorem negative_volatility_priced:
  "volatility \<lparr>time_to_maturity = 1, strike = 100, current_price = 100, volatility = - 0.2,
       interest_rate = 0.05\<rparr> \<le> 0
   \<and> calculate_prices \<lparr>time_to_maturity = 1, strike = 100, current_price = 100,
       volatility = - 0.2, interest_rate = 0.05\<rparr>
     = Some \<lparr>call_price = 100 * norm_cdf (- 0.35) - 100 * exp (- 0.05) * norm_cdf (- 0.15),
         put_price = 100 * exp (- 0.05) * norm_cdf 0.15 - 100 * norm_cdf 0.35,
         call_delta = norm_cdf (- 0.35),
         put_delta = 1 - norm_cdf (- 0.35),
         call_gamma = norm_pdf (- 0.35) / (- 20),
         put_gamma = norm_pdf (- 0.35) / (- 20)\<rparr>"
proof -
  let ?b = "\<lparr>time_to_maturity = 1, strike = 100, current_price = 100, volatility = - 0.2,
    interest_rate = 0.05\<rparr>"
  have ra: "real_arith ?b" by (simp add: real_arith_def)
  have 1: "d1 ?b = - 0.35" by (simp add: d1_def power2_eq_square)
  then have 2: "d2 ?b = - 0.15" by (simp add: d2_def)
  have c: "call_value ?b = 100 * norm_cdf (- 0.35) - 100 * exp (- 0.05) * norm_cdf (- 0.15)"
    unfolding call_value_def 1 2 by simp
  have p: "put_value ?b = 100 * exp (- 0.05) * norm_cdf 0.15 - 100 * norm_cdf 0.35"
    unfolding put_value_def 1 2 by simp
  have g: "norm_pdf (d1 ?b) / (strike ?b * volatility ?b * sqrt (time_to_maturity ?b))
      = norm_pdf (- 0.35) / (- 20)"
    unfolding 1 by simp
  show ?thesis
    unfolding calculate_prices_Some [OF ra] c p g 1 by simp
qed

text \<open>
  C8, amended. \<open>calculate_prices\<close> has no InvalidParameter error and no check of its
  input: whenever the strike is not zero, the quotient of spot price and strike is
  positive, the time to maturity is positive and the volatility is not zero, it returns
  the values of the closed formulas, also when the volatility is negative or when spot
  price and strike are both negative.
\<close>

theorem calculate_prices_unchecked:
  assumes "strike b \<noteq> 0" "0 < current_price b / strike b" "0 < time_to_maturity b"
    "volatility b \<noteq> 0"
  shows "\<exists>p. calculate_prices b = Some p
     \<and> call_price p = current_price b * norm_cdf (d1 b)
         - strike b * exp (- (interest_rate b * time_to_maturity b)) * norm_cdf (d2 b)
     \<and> put_price p = strike b * exp (- (interest_rate b * time_to_maturity b)) * norm_cdf (- d2 b)
         - current_price b * norm_cdf (- d1 b)"
proof -
  have "real_arith b" using assms by (simp add: real_arith_def)
  then show ?thesis
    by (simp add: calculate_prices_Some call_value_def put_value_def)
qed

theorem calculate_prices_unchecked_witness:
  "\<exists>p. calculate_prices \<lparr>time_to_maturity = 1, strike = - 100, current_price = - 100,
         volatility = - 0.2, interest_rate = 0.05\<rparr> = Some p
     \<and> call_price p = - 100 * norm_cdf (- 0.35) - (- 100) * exp (- 0.05) * norm_cdf (- 0.15)
     \<and> put_price p = - 100 * exp (- 0.05) * norm_cdf 0.15 - (- 100) * norm_cdf 0.35"
proof -
  let ?b = "\<lparr>time_to_maturity = 1, strike = - 100, current_price = - 100, volatility = - 0.2,
    interest_rate = 0.05\<rparr>"
  have 1: "d1 ?b = - 0.35" by (simp add: d1_def power2_eq_square)
  then have 2: "d2 ?b = - 0.15" by (simp add: d2_def)
  have "\<exists>p. calculate_prices ?b = Some p
     \<and> call_price p = current_price ?b * norm_cdf (d1 ?b)
         - strike ?b * exp (- (interest_rate ?b * time_to_maturity ?b)) * norm_cdf (d2 ?b)
     \<and> put_price p = strike ?b * exp (- (interest_rate ?b * time_to_maturity ?b))
           * norm_cdf (- d2 ?b)
         - current_price ?b * norm_cdf (- d1 ?b)"
    by (rule calculate_prices_unchecked) simp_all
  then show ?thesis
    unfolding 1 2 by simp
qed

text \<open>
  C9. Monotonicity: from a valid input, raising the spot price does not lower the call
  price and does not raise the put price; raising the volatility lowers neither price.
\<close>

theorem price_monotonicity:
  assumes "valid b" "current_price b \<le> s'" "volatility b \<le> v'"
  shows "\<exists>p ps pv. calculate_prices b = Some p
     \<and> calculate_prices (b\<lparr>current_price := s'\<rparr>) = Some ps
     \<and> calculate_prices (b\<lparr>volatility := v'\<rparr>) = Some pv
     \<and> call_price p \<le> call_price ps \<and> put_price ps \<le> put_price p
     \<and> call_price p \<le> call_price pv \<and> put_price p \<le> put_price pv"
proof -
  from assms(1) have pos: "0 < current_price b" "0 < strike b" "0 < time_to_maturity b"
    "0 < volatility b"
    by (simp_all add: valid_def)
  have ra: "real_arith b" using assms(1) by (rule valid_real_arith)
  have ras: "real_arith (b\<lparr>current_price := s'\<rparr>)"
    using pos assms(2) by (simp add: real_arith_def)
  have rav: "real_arith (b\<lparr>volatility := v'\<rparr>)"
    using pos assms(3) by (simp add: real_arith_def)
  have v0: "volatility b \<noteq> 0" using pos by simp
  have cs: "call_value b \<le> call_value (b\<lparr>current_price := s'\<rparr>)"
    using call_value_mono_spot [OF pos(1) assms(2) pos(2,3) v0] by simp
  have ps: "put_value (b\<lparr>current_price := s'\<rparr>) \<le> put_value b"
    using put_value_antimono_spot [OF pos(1) assms(2) pos(2,3) v0] by simp
  have cv: "call_value b \<le> call_value (b\<lparr>volatility := v'\<rparr>)"
    using call_value_mono_vol [OF pos(4) assms(3) pos(2,1,3)] by simp
  have pv: "put_value b \<le> put_value (b\<lparr>volatility := v'\<rparr>)"
    using put_value_mono_vol [OF pos(4) assms(3) pos(2,1,3)] by simp
  show ?thesis
    by (simp add: calculate_prices_Some [OF ra] calculate_prices_Some [OF ras]
        calculate_prices_Some [OF rav] cs ps cv pv)
qed

theorem price_monotonicity_witness:
  "\<exists>p ps pv.
     calculate_prices \<lparr>time_to_maturity = 1, strike = 100, current_price = 100,
       volatility = 0.2, interest_rate = 0.05\<rparr> = Some p
     \<and> calculate_prices \<lparr>time_to_maturity = 1, strike = 100, current_price = 110,
       volatility = 0.2, interest_rate = 0.05\<rparr> = Some ps
     \<and> calculate_prices \<lparr>time_to_maturity = 1, strike = 100, current_price = 100,
       volatility = 0.3, interest_rate = 0.05\<rparr> = Some pv
     \<and> call_price p \<le> call_price ps \<and> put_price ps \<le> put_price p
     \<and> call_price p \<le> call_price pv \<and> put_price p \<le> put_price pv"
  using price_monotonicity [of "\<lparr>time_to_maturity = 1, strike = 100, current_price = 100,
       volatility = 0.2, interest_rate = 0.05\<rparr>" 110 "0.3"]
  by (simp add: valid_def)

section \<open>The claims about the grid evaluator\<close>

lemma derived_parameters:
  "\<lparr>time_to_maturity = time_to_maturity bs_model, strike = k, current_price = s,
     volatility = v, interest_rate = interest_rate bs_model\<rparr>
   = bs_model\<lparr>current_price := s, volatility := v, strike := k\<rparr>"
  by (cases bs_model) simp

lemma derived_parameters_base:
  "\<lparr>time_to_maturity = time_to_maturity bs_model, strike = strike bs_model, current_price = s,
     volatility = v, interest_rate = interest_rate bs_model\<rparr>
   = bs_model\<lparr>current_price := s, volatility := v\<rparr>"
  by (cases bs_model) simp

text \<open>
  C4. Every cell \<open>[i][j]\<close> of the matrix of the sweep is the price that the pricing
  engine computes on the base parameters with the spot price \<open>spot_range[j]\<close>, the
  volatility \<open>vol_range[i]\<close> and the supplied strike: the call price for the option
  type \<open>"call"\<close>, the put price for any other.
\<close>

theorem sweep_cell:
  assumes "i < length vol_range" "j < length spot_range"
  shows "\<exists>M. plot_heatmap bs_model spot_range vol_range strike' option_type = Inr M
     \<and> M ! i ! j
       = map_option (if option_type = ''call'' then call_price else put_price)
          (calculate_prices (bs_model\<lparr>current_price := spot_range ! j,
             volatility := vol_range ! i, strike := strike'\<rparr>))"
  using assms
  by (simp add: plot_heatmap_grid grid_nth predicted_price_def derived_parameters)

theorem sweep_cell_witness:
  "\<exists>M. plot_heatmap \<lparr>time_to_maturity = 1, strike = 100, current_price = 100,
          volatility = 0.2, interest_rate = 0.05\<rparr> [90, 110] [0.1, 0.3] 95 ''put'' = Inr M
     \<and> M ! 1 ! 0
       = map_option put_price
          (calculate_prices \<lparr>time_to_maturity = 1, strike = 95, current_price = 90,
             volatility = 0.3, interest_rate = 0.05\<rparr>)"
  using sweep_cell [where i = 1 and j = 0 and vol_range = "[0.1, 0.3]"
      and spot_range = "[90, 110]" and strike' = 95 and option_type = "''put''"
      and bs_model = "\<lparr>time_to_maturity = 1, strike = 100, current_price = 100,
          volatility = 0.2, interest_rate = 0.05\<rparr>"]
  by simp

text \<open>
  C5. When the reference sequence is as long as the volatility range, every cell
  \<open>[i][j]\<close> of the difference sweep is the price for the pair
  \<open>(vol_range[i], spot_range[j])\<close> minus \<open>purchase_price_range[i]\<close>. On a grid of one
  spot price and one volatility with the reference value \<open>p\<close>, the difference sweep is
  the sweep (at the strike of the base parameters) minus \<open>p\<close>.
\<close>

theorem difference_sweep_cell:
  assumes "length purchase_price_range = length vol_range"
    and "i < length vol_range" "j < length spot_range"
  shows "(\<exists>M. plot_price_diff_colormap bs_model spot_range vol_range purchase_price_range
            option_type = Inr M
       \<and> M ! i ! j
         = map_option (\<lambda>x. x - purchase_price_range ! i)
            (map_option (if option_type = ''call'' then call_price else put_price)
              (calculate_prices (bs_model\<lparr>current_price := spot_range ! j,
                 volatility := vol_range ! i\<rparr>))))
     \<and> (\<exists>c. plot_heatmap bs_model [spot] [vol] (strike bs_model) option_type = Inr [[c]]
       \<and> plot_price_diff_colormap bs_model [spot] [vol] [p] option_type
         = Inr [[map_option (\<lambda>x. x - p) c]])"
proof -
  have "length vol_range \<le> length purchase_price_range \<or> spot_range = []"
    using assms(1) by simp
  then have 1: "plot_price_diff_colormap bs_model spot_range vol_range purchase_price_range
      option_type
   = Inr (grid (\<lambda>k vol spot. map_option (\<lambda>x. x - purchase_price_range ! k)
       (predicted_price option_type
         \<lparr>time_to_maturity = time_to_maturity bs_model, strike = strike bs_model,
          current_price = spot, volatility = vol, interest_rate = interest_rate bs_model\<rparr>))
      spot_range 0 vol_range)"
    by (rule plot_price_diff_colormap_grid)
  have 2: "plot_price_diff_colormap bs_model [spot] [vol] [p] option_type
      = Inr [[map_option (\<lambda>x. x - p) (predicted_price option_type
         \<lparr>time_to_maturity = time_to_maturity bs_model, strike = strike bs_model,
          current_price = spot, volatility = vol, interest_rate = interest_rate bs_model\<rparr>)]]"
    by (simp add: plot_price_diff_colormap_grid grid_def)
  have 3: "plot_heatmap bs_model [spot] [vol] (strike bs_model) option_type
      = Inr [[predicted_price option_type
         \<lparr>time_to_maturity = time_to_maturity bs_model, strike = strike bs_model,
          current_price = spot, volatility = vol, interest_rate = interest_rate bs_model\<rparr>]]"
    by (simp add: plot_heatmap_grid grid_def)
  show ?thesis
    using assms(2,3)
    by (simp add: 1 2 3 grid_nth predicted_price_def derived_parameters_base)
qed

theorem difference_sweep_cell_witness:
  "(\<exists>M. plot_price_diff_colormap \<lparr>time_to_maturity = 1, strike = 100, current_price = 100,
          volatility = 0.2, interest_rate = 0.05\<rparr> [90, 110] [0.1, 0.3] [8, 12] ''call'' = Inr M
       \<and> M ! 1 ! 0
         = map_option (\<lambda>x. x - 12)
            (map_option call_price
              (calculate_prices \<lparr>time_to_maturity = 1, strike = 100, current_price = 90,
                 volatility = 0.3, interest_rate = 0.05\<rparr>)))
     \<and> (\<exists>c. plot_heatmap \<lparr>time_to_maturity = 1, strike = 100, current_price = 100,
          volatility = 0.2, interest_rate = 0.05\<rparr> [90] [0.3] 100 ''call'' = Inr [[c]]
       \<and> plot_price_diff_colormap \<lparr>time_to_maturity = 1, strike = 100, current_price = 100,
          volatility = 0.2, interest_rate = 0.05\<rparr> [90] [0.3] [12] ''call''
         = Inr [[map_option (\<lambda>x. x - 12) c]])"
  using difference_sweep_cell [where i = 1 and j = 0 and vol_range = "[0.1, 0.3]"
      and spot_range = "[90, 110]" and purchase_price_range = "[8, 12]"
      and option_type = "''call''" and spot = 90 and vol = "0.3" and p = 12
      and bs_model = "\<lparr>time_to_maturity = 1, strike = 100, current_price = 100,
          volatility = 0.2, interest_rate = 0.05\<rparr>"]
  by simp

text \<open>
  C6. The sweep always returns a matrix with one row for each volatility and one column
  for each spot price. So does the difference sweep when its reference sequence is as long
  as the volatility range, and whenever it returns a matrix at all.
\<close>

theorem grid_shape:
  "(\<exists>M. plot_heatmap bs_model spot_range vol_range strike' option_type = Inr M
      \<and> length M = length vol_range \<and> (\<forall>row \<in> set M. length row = length spot_range))
   \<and> (length purchase_price_range = length vol_range \<longrightarrow>
       (\<exists>M. plot_price_diff_colormap bs_model spot_range vol_range purchase_price_range
             option_type = Inr M
          \<and> length M = length vol_range \<and> (\<forall>row \<in> set M. length row = length spot_range)))
   \<and> (\<forall>M. plot_price_diff_colormap bs_model spot_range vol_range purchase_price_range
             option_type = Inr M
        \<longrightarrow> length M = length vol_range \<and> (\<forall>row \<in> set M. length row = length spot_range))"
proof (intro conjI impI allI)
  show "\<exists>M. plot_heatmap bs_model spot_range vol_range strike' option_type = Inr M
      \<and> length M = length vol_range \<and> (\<forall>row \<in> set M. length row = length spot_range)"
    by (simp add: plot_heatmap_grid length_grid length_grid_row)
next
  assume "length purchase_price_range = length vol_range"
  then have "length vol_range \<le> length purchase_price_range \<or> spot_range = []" by simp
  then show "\<exists>M. plot_price_diff_colormap bs_model spot_range vol_range purchase_price_range
             option_type = Inr M
          \<and> length M = length vol_range \<and> (\<forall>row \<in> set M. length row = length spot_range)"
    by (simp add: plot_price_diff_colormap_grid length_grid length_grid_row)
next
  fix M
  assume M: "plot_price_diff_colormap bs_model spot_range vol_range purchase_price_range
      option_type = Inr M"
  have "length vol_range \<le> length purchase_price_range \<or> spot_range = []"
  proof (rule ccontr)
    assume "\<not> (length vol_range \<le> length purchase_price_range \<or> spot_range = [])"
    then have "plot_price_diff_colormap bs_model spot_range vol_range purchase_price_range
        option_type = Inl IndexError"
      by (intro plot_price_diff_colormap_IndexError) simp_all
    with M show False by simp
  qed
  then have "M = grid (\<lambda>k vol spot. map_option (\<lambda>x. x - purchase_price_range ! k)
       (predicted_price option_type
         \<lparr>time_to_maturity = time_to_maturity bs_model, strike = strike bs_model,
          current_price = spot, volatility = vol, interest_rate = interest_rate bs_model\<rparr>))
      spot_range 0 vol_range"
    using M by (simp add: plot_price_diff_colormap_grid)
  then show "length M = length vol_range" "\<forall>row \<in> set M. length row = length spot_range"
    by (simp_all add: length_grid length_grid_row)
qed

theorem grid_shape_witness:
  "(\<exists>M. plot_heatmap \<lparr>time_to_maturity = 1, strike = 100, current_price = 100,
          volatility = 0.2, interest_rate = 0.05\<rparr> [90, 100, 110] [0.1, 0.3] 95 ''put'' = Inr M
      \<and> length M = 2 \<and> (\<forall>row \<in> set M. length row = 3))
   \<and> (\<exists>M. plot_price_diff_colormap \<lparr>time_to_maturity = 1, strike = 100, current_price = 100,
          volatility = 0.2, interest_rate = 0.05\<rparr> [90, 100, 110] [0.1, 0.3] [8, 12] ''put''
        = Inr M
      \<and> length M = 2 \<and> (\<forall>row \<in> set M. length row = 3))"
  using grid_shape [where vol_range = "[0.1, 0.3]"
      and spot_range = "[90, 100, 110]" and purchase_price_range = "[8, 12]"
      and strike' = 95 and option_type = "''put''"
      and bs_model = "\<lparr>time_to_maturity = 1, strike = 100, current_price = 100,
          volatility = 0.2, interest_rate = 0.05\<rparr>"]
  by (simp add: numeral_2_eq_2 numeral_3_eq_3)

text \<open>
  C7. The claim is that the difference sweep fails with an IndexError whenever the
  reference sequence and the volatility range differ in length. A reference sequence
  that is too long is accepted: with one volatility and the two reference values 10 and
  12 the sweep returns its matrix, the price minus 10, and never reads the 12.
\<close>

theorem longer_reference_accepted:
  "length [10, 12 :: real] \<noteq> length [0.2 :: real]
   \<and> plot_price_diff_colormap \<lparr>time_to_maturity = 1, strike = 100, current_price = 100,
          volatility = 0.2, interest_rate = 0.05\<rparr> [100] [0.2] [10, 12] ''call''
     = Inr [[Some (100 * norm_cdf 0.35 - 100 * exp (- 0.05) * norm_cdf 0.15 - 10)]]"
proof -
  let ?b = "\<lparr>time_to_maturity = 1, strike = 100, current_price = 100, volatility = 0.2,
    interest_rate = 0.05\<rparr>"
  have ra: "real_arith ?b" by (simp add: real_arith_def)
  have 1: "d1 ?b = 0.35" by (simp add: d1_def power2_eq_square)
  then have 2: "d2 ?b = 0.15" by (simp add: d2_def)
  have c: "call_value ?b = 100 * norm_cdf 0.35 - 100 * exp (- 0.05) * norm_cdf 0.15"
    unfolding call_value_def 1 2 by simp
  have p: "predicted_price ''call'' ?b
      = Some (100 * norm_cdf 0.35 - 100 * exp (- 0.05) * norm_cdf 0.15)"
    unfolding predicted_price_def calculate_prices_Some [OF ra] c by simp
  have "plot_price_diff_colormap ?b [100] [0.2] [10, 12] ''call''
      = Inr [[map_option (\<lambda>x. x - 10) (predicted_price ''call'' ?b)]]"
    by (simp add: plot_price_diff_colormap_grid grid_def)
  then show ?thesis
    unfolding p by simp
qed

text \<open>
  C7, amended. The difference sweep has no check of the lengths. It fails with an
  IndexError exactly when the reference sequence is shorter than the volatility range
  and the spot range is not empty (the first cell of the first row without a reference
  value raises it); a reference sequence that is longer than the volatility range is
  accepted, and its surplus values are not read.
\<close>

theorem difference_sweep_IndexError:
  "(plot_price_diff_colormap bs_model spot_range vol_range purchase_price_range option_type
      = Inl IndexError
    \<longleftrightarrow> length purchase_price_range < length vol_range \<and> spot_range \<noteq> [])
   \<and> (length vol_range < length purchase_price_range \<longrightarrow>
       (\<exists>M. plot_price_diff_colormap bs_model spot_range vol_range purchase_price_range
          option_type = Inr M))"
proof (cases "length purchase_price_range < length vol_range \<and> spot_range \<noteq> []")
  case True
  then show ?thesis
    by (simp add: plot_price_diff_colormap_IndexError)
next
  case False
  then have "length vol_range \<le> length purchase_price_range \<or> spot_range = []"
    by auto
  then show ?thesis
    using False by (simp add: plot_price_diff_colormap_grid)
qed

theorem difference_sweep_IndexError_witness:
  "plot_price_diff_colormap \<lparr>time_to_maturity = 1, strike = 100, current_price = 100,
      volatility = 0.2, interest_rate = 0.05\<rparr> [90, 110] [0.1, 0.3] [8] ''call''
     = Inl IndexError
   \<and> (\<exists>M. plot_price_diff_colormap \<lparr>time_to_maturity = 1, strike = 100, current_price = 100,
      volatility = 0.2, interest_rate = 0.05\<rparr> [90, 110] [0.1, 0.3] [8, 10, 12] ''call''
     = Inr M)"
  using difference_sweep_IndexError [where vol_range = "[0.1, 0.3]"
      and spot_range = "[90, 110]" and purchase_price_range = "[8]"
      and option_type = "''call''"
      and bs_model = "\<lparr>time_to_maturity = 1, strike = 100, current_price = 100,
          volatility = 0.2, interest_rate = 0.05\<rparr>"]
    difference_sweep_IndexError [where vol_range = "[0.1, 0.3]"
      and spot_range = "[90, 110]" and purchase_price_range = "[8, 10, 12]"
      and option_type = "''call''"
      and bs_model = "\<lparr>time_to_maturity = 1, strike = 100, current_price = 100,
          volatility = 0.2, interest_rate = 0.05\<rparr>"]
  by simp

subsection \<open>Over the real numbers, different strikes give different prices\<close>

lemma d1_flip:
  "d1 (b\<lparr>current_price := - current_price b, strike := - strike b\<rparr>) = d1 b"
  by (simp add: d1_def)

lemma d2_flip:
  "d2 (b\<lparr>current_price := - current_price b, strike := - strike b\<rparr>) = d2 b"
  by (simp add: d2_def d1_flip)

lemma call_value_flip:
  "call_value (b\<lparr>current_price := - current_price b, strike := - strike b\<rparr>) = - call_value b"
  unfolding call_value_def d1_flip d2_flip by simp

lemma put_value_flip:
  "put_value (b\<lparr>current_price := - current_price b, strike := - strike b\<rparr>) = - put_value b"
  unfolding put_value_def d1_flip d2_flip by simp

lemma flip_strike:
  "(b\<lparr>current_price := - current_price b, strike := - k\<rparr>)
     \<lparr>current_price := - current_price (b\<lparr>current_price := - current_price b, strike := - k\<rparr>),
      strike := - strike (b\<lparr>current_price := - current_price b, strike := - k\<rparr>)\<rparr>
   = b\<lparr>strike := k\<rparr>"
  by (cases b) simp

lemma call_value_strike_flip:
  "call_value (b\<lparr>strike := k\<rparr>)
   = - call_value (b\<lparr>current_price := - current_price b, strike := - k\<rparr>)"
  using call_value_flip [of "b\<lparr>current_price := - current_price b, strike := - k\<rparr>"]
  by (simp only: flip_strike)

lemma put_value_strike_flip:
  "put_value (b\<lparr>strike := k\<rparr>)
   = - put_value (b\<lparr>current_price := - current_price b, strike := - k\<rparr>)"
  using put_value_flip [of "b\<lparr>current_price := - current_price b, strike := - k\<rparr>"]
  by (simp only: flip_strike)


lemma value_strike_inj:
  assumes k: "real_arith (b\<lparr>strike := k\<rparr>)" and k': "real_arith (b\<lparr>strike := k'\<rparr>)"
    and eq: "(if c then call_value (b\<lparr>strike := k\<rparr>) else put_value (b\<lparr>strike := k\<rparr>))
       = (if c then call_value (b\<lparr>strike := k'\<rparr>) else put_value (b\<lparr>strike := k'\<rparr>))"
  shows "k = k'"
proof -
  from k k' have q: "0 < current_price b / k" "0 < current_price b / k'"
    and T: "0 < time_to_maturity b" and v: "volatility b \<noteq> 0"
    by (simp_all add: real_arith_def)
  show ?thesis
  proof (cases "0 < current_price b")
    case True
    with q have pos: "0 < k" "0 < k'" by (simp_all add: zero_less_divide_iff)
    show ?thesis
    proof (cases c)
      case True
      with eq have "call_value (b\<lparr>strike := k\<rparr>) = call_value (b\<lparr>strike := k'\<rparr>)" by simp
      then show ?thesis by (rule call_value_strike_inj [OF pos \<open>0 < current_price b\<close> T v])
    next
      case False
      with eq have "put_value (b\<lparr>strike := k\<rparr>) = put_value (b\<lparr>strike := k'\<rparr>)" by simp
      then show ?thesis by (rule put_value_strike_inj [OF pos \<open>0 < current_price b\<close> T v])
    qed
  next
    case False
    let ?b = "b\<lparr>current_price := - current_price b\<rparr>"
    from False q have neg: "0 < - k" "0 < - k'" and S: "0 < current_price ?b"
      by (auto simp: zero_less_divide_iff)
    have T': "0 < time_to_maturity ?b" and v': "volatility ?b \<noteq> 0"
      using T v by simp_all
    have "- k = - k'"
    proof (cases c)
      case True
      with eq have "call_value (?b\<lparr>strike := - k\<rparr>) = call_value (?b\<lparr>strike := - k'\<rparr>)"
        by (simp add: call_value_strike_flip [of k b] call_value_strike_flip [of k' b])
      then show ?thesis by (rule call_value_strike_inj [OF neg S T' v'])
    next
      case False
      with eq have "put_value (?b\<lparr>strike := - k\<rparr>) = put_value (?b\<lparr>strike := - k'\<rparr>)"
        by (simp add: put_value_strike_flip [of k b] put_value_strike_flip [of k' b])
      then show ?thesis by (rule put_value_strike_inj [OF neg S T' v'])
    qed
    then show ?thesis by simp
  qed
qed

lemma predicted_price_eq_None: "predicted_price option_type b = None \<longleftrightarrow> \<not> real_arith b"
  by (simp add: predicted_price_def calculate_prices_def)

lemma predicted_price_Some:
  assumes "real_arith b"
  shows "predicted_price option_type b
     = Some (if option_type = ''call'' then call_value b else put_value b)"
  using assms by (simp add: predicted_price_def calculate_prices_Some)

lemma predicted_price_strike_inj:
  assumes "predicted_price option_type (b\<lparr>strike := k\<rparr>) \<noteq> None"
    and "map_option (\<lambda>x. x - p) (predicted_price option_type (b\<lparr>strike := k'\<rparr>))
       = map_option (\<lambda>x. x - p) (predicted_price option_type (b\<lparr>strike := k\<rparr>))"
  shows "k = k'"
proof -
  have k: "real_arith (b\<lparr>strike := k\<rparr>)"
    using assms(1) by (simp add: predicted_price_eq_None)
  have "predicted_price option_type (b\<lparr>strike := k'\<rparr>) \<noteq> None"
    using assms by auto
  then have k': "real_arith (b\<lparr>strike := k'\<rparr>)"
    by (simp add: predicted_price_eq_None)
  have "(if option_type = ''call'' then call_value (b\<lparr>strike := k\<rparr>)
        else put_value (b\<lparr>strike := k\<rparr>))
      = (if option_type = ''call'' then call_value (b\<lparr>strike := k'\<rparr>)
        else put_value (b\<lparr>strike := k'\<rparr>))"
    using assms(2) by (simp add: predicted_price_Some [OF k] predicted_price_Some [OF k'])
  then show ?thesis by (rule value_strike_inj [OF k k'])
qed

text \<open>
  C10. The claim is that the cell of the difference sweep is the cell of the sweep minus
  the reference value of its row only when the strike given to the sweep is the strike of
  the base parameters. With a time to maturity of 0 (spot price 100, volatility 0.2) and the
  strikes 200 and 300 the two cells agree although the strikes differ: the divisor of \<open>d1\<close>
  is 0, so neither price is a real number in the model; the program goes on with
  \<open>d1 = -inf\<close> and gets the call price 0.0 at both strikes.
\<close>

theorem equal_cells_unequal_strikes:
  "strike \<lparr>time_to_maturity = 0, strike = 200, current_price = 100, volatility = 0.2,
       interest_rate = 0.05\<rparr> \<noteq> 300
   \<and> plot_heatmap \<lparr>time_to_maturity = 0, strike = 200, current_price = 100,
       volatility = 0.2, interest_rate = 0.05\<rparr> [100] [0.2] 300 ''call'' = Inr [[None]]
   \<and> plot_price_diff_colormap \<lparr>time_to_maturity = 0, strike = 200, current_price = 100,
       volatility = 0.2, interest_rate = 0.05\<rparr> [100] [0.2] [10] ''call'' = Inr [[None]]
   \<and> [[None]] ! 0 ! 0 = map_option (\<lambda>x. x - 10) ([[None :: real option]] ! 0 ! 0)"
proof -
  let ?b = "\<lparr>time_to_maturity = 0, strike = 200, current_price = 100, volatility = 0.2,
    interest_rate = 0.05\<rparr>"
  have 1: "predicted_price ''call'' \<lparr>time_to_maturity = time_to_maturity ?b, strike = 300,
      current_price = 100, volatility = 0.2, interest_rate = interest_rate ?b\<rparr> = None"
    by (simp add: predicted_price_eq_None real_arith_def)
  have 2: "predicted_price ''call'' \<lparr>time_to_maturity = time_to_maturity ?b,
      strike = strike ?b, current_price = 100, volatility = 0.2,
      interest_rate = interest_rate ?b\<rparr> = None"
    by (simp add: predicted_price_eq_None real_arith_def)
  have "plot_heatmap ?b [100] [0.2] 300 ''call''
      = Inr [[predicted_price ''call'' \<lparr>time_to_maturity = time_to_maturity ?b, strike = 300,
          current_price = 100, volatility = 0.2, interest_rate = interest_rate ?b\<rparr>]]"
    by (simp add: plot_heatmap_grid grid_def)
  then have M: "plot_heatmap ?b [100] [0.2] 300 ''call'' = Inr [[None]]"
    unfolding 1 .
  have "plot_price_diff_colormap ?b [100] [0.2] [10] ''call''
      = Inr [[map_option (\<lambda>x. x - 10) (predicted_price ''call''
          \<lparr>time_to_maturity = time_to_maturity ?b, strike = strike ?b,
           current_price = 100, volatility = 0.2, interest_rate = interest_rate ?b\<rparr>)]]"
    by (simp add: plot_price_diff_colormap_grid grid_def)
  then have D: "plot_price_diff_colormap ?b [100] [0.2] [10] ''call'' = Inr [[None]]"
    unfolding 2 by simp
  show ?thesis
    using M D by simp
qed

text \<open>
  C10, amended. The difference sweep takes no strike: each of its cells is the price at
  the strike of the base parameters minus the reference value of its row. Each cell of the
  sweep is the price at the strike the sweep is given. So the cell of the difference sweep
  is the cell of the sweep minus the reference value of its row whenever the two strikes
  are equal. With unequal strikes the two are prices at different strikes; they differ as
  a rule (at spot price 90, volatility 0.3 and the strikes 95 and 100 they do), and can
  agree.
\<close>

theorem difference_sweep_strike:
  assumes "i < length vol_range" "j < length spot_range"
    and "length vol_range \<le> length purchase_price_range"
  shows "\<exists>M D. plot_heatmap bs_model spot_range vol_range strike' option_type = Inr M
     \<and> plot_price_diff_colormap bs_model spot_range vol_range purchase_price_range option_type
       = Inr D
     \<and> M ! i ! j = predicted_price option_type
         (bs_model\<lparr>current_price := spot_range ! j, volatility := vol_range ! i,
            strike := strike'\<rparr>)
     \<and> D ! i ! j = map_option (\<lambda>x. x - purchase_price_range ! i)
         (predicted_price option_type
           (bs_model\<lparr>current_price := spot_range ! j, volatility := vol_range ! i\<rparr>))
     \<and> (strike' = strike bs_model
        \<longrightarrow> D ! i ! j = map_option (\<lambda>x. x - purchase_price_range ! i) (M ! i ! j))"
proof -
  let ?b = "bs_model\<lparr>current_price := spot_range ! j, volatility := vol_range ! i\<rparr>"
  let ?p = "purchase_price_range ! i"
  let ?M = "grid (\<lambda>k vol spot. predicted_price option_type
       \<lparr>time_to_maturity = time_to_maturity bs_model, strike = strike',
        current_price = spot, volatility = vol, interest_rate = interest_rate bs_model\<rparr>)
      spot_range 0 vol_range"
  let ?D = "grid (\<lambda>k vol spot. map_option (\<lambda>x. x - purchase_price_range ! k)
       (predicted_price option_type
         \<lparr>time_to_maturity = time_to_maturity bs_model, strike = strike bs_model,
          current_price = spot, volatility = vol, interest_rate = interest_rate bs_model\<rparr>))
      spot_range 0 vol_range"
  have M: "plot_heatmap bs_model spot_range vol_range strike' option_type = Inr ?M"
    by (rule plot_heatmap_grid)
  have D: "plot_price_diff_colormap bs_model spot_range vol_range purchase_price_range
      option_type = Inr ?D"
    using assms(3) by (intro plot_price_diff_colormap_grid) simp
  have Mc: "?M ! i ! j = predicted_price option_type (?b\<lparr>strike := strike'\<rparr>)"
    using assms(1,2) by (simp add: grid_nth derived_parameters)
  have Dc: "?D ! i ! j = map_option (\<lambda>x. x - ?p) (predicted_price option_type ?b)"
    using assms(1,2) by (simp add: grid_nth derived_parameters_base)
  have same: "?D ! i ! j = map_option (\<lambda>x. x - ?p) (?M ! i ! j)" if "strike' = strike bs_model"
  proof -
    have "?b\<lparr>strike := strike'\<rparr> = ?b" using that by simp
    then show ?thesis by (simp only: Mc Dc)
  qed
  show ?thesis
    using M D Mc Dc same by (intro exI [of _ ?M] exI [of _ ?D]) blast
qed

theorem difference_sweep_strike_witness:
  "\<exists>M D. plot_heatmap \<lparr>time_to_maturity = 1, strike = 100, current_price = 100,
          volatility = 0.2, interest_rate = 0.05\<rparr> [90, 110] [0.1, 0.3] 95 ''call'' = Inr M
     \<and> plot_price_diff_colormap \<lparr>time_to_maturity = 1, strike = 100, current_price = 100,
          volatility = 0.2, interest_rate = 0.05\<rparr> [90, 110] [0.1, 0.3] [8, 12] ''call''
       = Inr D
     \<and> M ! 1 ! 0 = predicted_price ''call'' \<lparr>time_to_maturity = 1, strike = 95,
          current_price = 90, volatility = 0.3, interest_rate = 0.05\<rparr>
     \<and> D ! 1 ! 0 = map_option (\<lambda>x. x - 12) (predicted_price ''call''
          \<lparr>time_to_maturity = 1, strike = 100, current_price = 90, volatility = 0.3,
           interest_rate = 0.05\<rparr>)
     \<and> D ! 1 ! 0 \<noteq> map_option (\<lambda>x. x - 12) (M ! 1 ! 0)"
proof -
  let ?b = "\<lparr>time_to_maturity = 1, strike = 100, current_price = 90, volatility = 0.3,
    interest_rate = 0.05\<rparr>"
  have ne: "predicted_price ''call'' (?b\<lparr>strike := 95\<rparr>) \<noteq> None"
    by (simp add: predicted_price_eq_None real_arith_def)
  have "map_option (\<lambda>x. x - 12) (predicted_price ''call'' (?b\<lparr>strike := 100\<rparr>))
      \<noteq> map_option (\<lambda>x. x - 12) (predicted_price ''call'' (?b\<lparr>strike := 95\<rparr>))"
  proof
    assume "map_option (\<lambda>x. x - 12) (predicted_price ''call'' (?b\<lparr>strike := 100\<rparr>))
      = map_option (\<lambda>x. x - 12) (predicted_price ''call'' (?b\<lparr>strike := 95\<rparr>))"
    with ne have "(95::real) = 100" by (rule predicted_price_strike_inj)
    then show False by simp
  qed
  then have differ: "map_option (\<lambda>x. x - 12) (predicted_price ''call''
          \<lparr>time_to_maturity = 1, strike = 100, current_price = 90, volatility = 0.3,
           interest_rate = 0.05\<rparr>)
      \<noteq> map_option (\<lambda>x. x - 12) (predicted_price ''call'' \<lparr>time_to_maturity = 1,
          strike = 95, current_price = 90, volatility = 0.3, interest_rate = 0.05\<rparr>)"
    by simp
  show ?thesis
    using differ difference_sweep_strike [where i = 1 and j = 0 and vol_range = "[0.1, 0.3]"
      and spot_range = "[90, 110]" and purchase_price_range = "[8, 12]"
      and strike' = 95 and option_type = "''call''"
      and bs_model = "\<lparr>time_to_maturity = 1, strike = 100, current_price = 100,
          volatility = 0.2, interest_rate = 0.05\<rparr>"]
    by auto
qed

end
